theory Spec2Isabelle
  imports Complex_Main
begin

section \<open>Conventions of the embedding\<close>

text \<open>
  The Python sources \<^verbatim>\<open>bpm/core.py\<close> and \<^verbatim>\<open>bpm/mode_solver.py\<close> compute with IEEE
  doubles and numpy arrays. The embedding reads a double as a real number and a complex
  double as a complex number, so every arithmetic operation is exact. What the code does
  that is not a value is written out:
  \<^item> a Python exception is a value of \<open>py_error\<close>;
  \<^item> a one-dimensional numpy array is a list, a two-dimensional array of shape
    \<open>(Nx, Nz)\<close> is the list of its \<open>Nz\<close> columns \<open>A[:, j]\<close>, each a list of length \<open>Nx\<close>;
  \<^item> numpy broadcasting of two one-dimensional operands is \<open>broadcast2\<close>;
  \<^item> the in-place update of the field array is explicit state passing.
  A numpy division of an array by \<open>0.0\<close> does not raise: it yields \<open>inf\<close>/\<open>nan\<close> entries
  with a warning. Real numbers have no such values; HOL's \<open>x / 0 = 0\<close> stands in their
  place, and no theorem below relies on the value of such an entry.
\<close>

datatype py_error = ValueError string | IndexError | ZeroDivisionError

type_synonym 'a array2 = "'a list list"

definition ncols :: "'a array2 \<Rightarrow> nat" where
  "ncols A = length A"

definition rect :: "nat \<Rightarrow> 'a array2 \<Rightarrow> bool" where
  "rect Nx A = list_all (\<lambda>c. length c = Nx) A"

section \<open>numpy primitives used by the propagation engine\<close>

text \<open>\<^verbatim>\<open>np.roll(a, shift)\<close> on a one-dimensional array: the last \<open>shift mod n\<close> entries
  move to the front.\<close>

definition np_roll :: "'a list \<Rightarrow> int \<Rightarrow> 'a list" where
  "np_roll a shift =
     (let n = length a in
      if n = 0 then a
      else let s = nat (shift mod int n) in drop (n - s) a @ take (n - s) a)"

text \<open>Elementwise binary operation on two one-dimensional arrays under numpy's
  broadcasting rule: equal lengths, or one operand of length 1 that is stretched.\<close>

definition broadcast2 :: "('a \<Rightarrow> 'b \<Rightarrow> 'c) \<Rightarrow> 'a list \<Rightarrow> 'b list \<Rightarrow> py_error + 'c list" where
  "broadcast2 f u v =
     (if length u = length v then Inr (map2 f u v)
      else if length u = 1 then Inr (map (f (hd u)) v)
      else if length v = 1 then Inr (map (\<lambda>a. f a (hd v)) u)
      else Inl (ValueError ''operands could not be broadcast together''))"

definition bind_err :: "py_error + 'a \<Rightarrow> ('a \<Rightarrow> py_error + 'b) \<Rightarrow> py_error + 'b" where
  "bind_err r k = (case r of Inl e \<Rightarrow> Inl e | Inr v \<Rightarrow> k v)"

text \<open>\<^verbatim>\<open>A[:, j]\<close> for \<open>j \<ge> 0\<close>.\<close>

definition get_col :: "'a array2 \<Rightarrow> nat \<Rightarrow> py_error + 'a list" where
  "get_col A j = (if j < ncols A then Inr (A ! j) else Inl IndexError)"

text \<open>\<^verbatim>\<open>A[:, j] = v\<close>: the index is checked first, then \<open>v\<close> is broadcast to the length of
  the column.\<close>

definition set_col :: "'a array2 \<Rightarrow> nat \<Rightarrow> 'a list \<Rightarrow> py_error + 'a array2" where
  "set_col A j v =
     (if \<not> j < ncols A then Inl IndexError
      else if length v = length (A ! j) then Inr (A[j := v])
      else if length v = 1 then Inr (A[j := replicate (length (A ! j)) (hd v)])
      else Inl (ValueError ''could not broadcast input array''))"

section \<open>\<^verbatim>\<open>bpm/core.py\<close>\<close>

text \<open>\<^verbatim>\<open>compute_dE_dz(E_slice, n_r2_slice, dx, n0, sigma_x, k0)\<close>, line by line. The
  Laplacian (source line 14) cannot raise. The two scalar quotients
  \<^verbatim>\<open>1j / (2 * k0 * n0)\<close> and \<^verbatim>\<open>k0 / (2 * n0)\<close> are divisions of Python numbers and raise
  \<open>ZeroDivisionError\<close> on a zero divisor; the products and sums of arrays raise when
  their operands do not broadcast.\<close>

definition laplacian_E :: "complex list \<Rightarrow> real \<Rightarrow> complex list" where
  "laplacian_E E_slice dx =
     map2 (\<lambda>a (b, c). (a - 2 * b + c) / of_real (dx ^ 2))
       (np_roll E_slice 1) (zip E_slice (np_roll E_slice (- 1)))"

definition laplacian_term :: "complex list \<Rightarrow> real \<Rightarrow> real \<Rightarrow> real \<Rightarrow> complex list" where
  "laplacian_term E_slice dx n0 k0 =
     map (\<lambda>l. (\<i> / of_real (2 * k0 * n0)) * l) (laplacian_E E_slice dx)"

text \<open>The array \<^verbatim>\<open>1j * (k0 / (2 * n0)) * (n_r2_slice - n0**2)\<close>, before it is multiplied
  with \<^verbatim>\<open>E_slice\<close>.\<close>

definition index_coeff :: "real list \<Rightarrow> real \<Rightarrow> real \<Rightarrow> complex list" where
  "index_coeff n_r2_slice n0 k0 =
     map (\<lambda>n. \<i> * of_real (k0 / (2 * n0)) * of_real (n - n0 ^ 2)) n_r2_slice"

definition compute_dE_dz ::
  "complex list \<Rightarrow> real list \<Rightarrow> real \<Rightarrow> real \<Rightarrow> real list \<Rightarrow> real \<Rightarrow> py_error + complex list" where
  "compute_dE_dz E_slice n_r2_slice dx n0 sigma_x k0 =
     (if 2 * k0 * n0 = 0 then Inl ZeroDivisionError
      else if 2 * n0 = 0 then Inl ZeroDivisionError
      else bind_err (broadcast2 (*) (index_coeff n_r2_slice n0 k0) E_slice)
             (\<lambda>index_term.
           bind_err (broadcast2 (\<lambda>s e. of_real s * e) (map uminus sigma_x) E_slice)
             (\<lambda>damping_term.
           bind_err (broadcast2 (+) (laplacian_term E_slice dx n0 k0) index_term)
             (\<lambda>s. broadcast2 (+) s damping_term))))"

text \<open>The right-hand side of source line 45 with the four stages before it (lines
  41 to 44), as a function of \<^verbatim>\<open>E_prev\<close> and \<^verbatim>\<open>n_r2_slice\<close>; the operations are evaluated in
  source order.\<close>

definition scale :: "real \<Rightarrow> complex list \<Rightarrow> complex list" where
  "scale a v = map (\<lambda>c. of_real a * c) v"

definition divide_by :: "complex list \<Rightarrow> real \<Rightarrow> complex list" where
  "divide_by v a = map (\<lambda>c. c / of_real a) v"

definition rk4_column ::
  "complex list \<Rightarrow> real list \<Rightarrow> real \<Rightarrow> real \<Rightarrow> real \<Rightarrow> real list \<Rightarrow> real
     \<Rightarrow> py_error + complex list" where
  "rk4_column E_prev n_r2_slice dx dz n0 sigma_x k0 =
     bind_err (compute_dE_dz E_prev n_r2_slice dx n0 sigma_x k0) (\<lambda>d1.
     let k1 = scale dz d1 in
     bind_err (broadcast2 (+) E_prev (divide_by k1 2)) (\<lambda>E1.
     bind_err (compute_dE_dz E1 n_r2_slice dx n0 sigma_x k0) (\<lambda>d2.
     let k2 = scale dz d2 in
     bind_err (broadcast2 (+) E_prev (divide_by k2 2)) (\<lambda>E2.
     bind_err (compute_dE_dz E2 n_r2_slice dx n0 sigma_x k0) (\<lambda>d3.
     let k3 = scale dz d3 in
     bind_err (broadcast2 (+) E_prev k3) (\<lambda>E3.
     bind_err (compute_dE_dz E3 n_r2_slice dx n0 sigma_x k0) (\<lambda>d4.
     let k4 = scale dz d4 in
     bind_err (broadcast2 (+) k1 (scale 2 k2)) (\<lambda>s1.
     bind_err (broadcast2 (+) s1 (scale 2 k3)) (\<lambda>s2.
     bind_err (broadcast2 (+) s2 k4) (\<lambda>s3.
     broadcast2 (+) E_prev (divide_by s3 6)))))))))))"

text \<open>One pass of the loop body of \<^verbatim>\<open>run_bpm\<close> for the axial index \<open>zi\<close> (lines 39 to 45):
  the two column reads, the stages, and last the assignment to column \<open>zi\<close>.\<close>

definition bpm_step ::
  "complex array2 \<Rightarrow> real array2 \<Rightarrow> real \<Rightarrow> real \<Rightarrow> real \<Rightarrow> real list \<Rightarrow> real \<Rightarrow> nat
     \<Rightarrow> py_error + complex array2" where
  "bpm_step E n_r2 dx dz n0 sigma_x k0 zi =
     bind_err (get_col E (zi - 1)) (\<lambda>E_prev.
     bind_err (get_col n_r2 (zi - 1)) (\<lambda>n_r2_slice.
     bind_err (rk4_column E_prev n_r2_slice dx dz n0 sigma_x k0) (\<lambda>E_next.
     set_col E zi E_next)))"

text \<open>The state of a call of \<^verbatim>\<open>run_bpm\<close>: the contents of the array \<open>E\<close>, which the
  caller shares and the loop updates in place; the axial indices of the columns assigned
  so far, in the order of the assignments; and the exception that ended the call, if
  any. On a normal return the function hands back the array \<open>E\<close> itself.\<close>

record bpm_state =
  field :: "complex array2"
  written :: "nat list"
  raised :: "py_error option"

text \<open>\<^verbatim>\<open>for zi in range(1, Nz)\<close>, the remaining indices as a list.\<close>

fun march ::
  "real array2 \<Rightarrow> real \<Rightarrow> real \<Rightarrow> real \<Rightarrow> real list \<Rightarrow> real \<Rightarrow> nat list \<Rightarrow> bpm_state \<Rightarrow> bpm_state" where
  "march n_r2 dx dz n0 sigma_x k0 [] s = s"
| "march n_r2 dx dz n0 sigma_x k0 (zi # zis) s =
     (case bpm_step (field s) n_r2 dx dz n0 sigma_x k0 zi of
        Inl e \<Rightarrow> s\<lparr>raised := Some e\<rparr>
      | Inr E' \<Rightarrow> march n_r2 dx dz n0 sigma_x k0 zis
                   (s\<lparr>field := E', written := written s @ [zi]\<rparr>))"

text \<open>\<^verbatim>\<open>run_bpm(E, n_r2, x, z, dx, dz, n0, sigma_x, wavelength)\<close>. The quotient
  \<^verbatim>\<open>2 * np.pi / wavelength\<close> is a division of Python floats.\<close>

definition run_bpm ::
  "complex array2 \<Rightarrow> real array2 \<Rightarrow> real list \<Rightarrow> real list \<Rightarrow> real \<Rightarrow> real \<Rightarrow> real
     \<Rightarrow> real list \<Rightarrow> real \<Rightarrow> bpm_state" where
  "run_bpm E n_r2 x z dx dz n0 sigma_x wavelength =
     (if wavelength = 0 then \<lparr>field = E, written = [], raised = Some ZeroDivisionError\<rparr>
      else let k0 = 2 * pi / wavelength; Nz = length z
           in march n_r2 dx dz n0 sigma_x k0 [1..<Nz]
                \<lparr>field = E, written = [], raised = None\<rparr>)"

section \<open>\<^verbatim>\<open>bpm/mode_solver.py\<close>\<close>

subsection \<open>Values of dynamic type\<close>

text \<open>The argument \<^verbatim>\<open>ind_m\<close> is annotated \<^verbatim>\<open>int\<close> but checked at run time with
  \<^verbatim>\<open>isinstance(ind_m, int)\<close>; the values a caller can pass are modelled by their run-time
  class. \<^verbatim>\<open>bool\<close> is a subclass of \<^verbatim>\<open>int\<close> in Python; numpy integers and floats are
  not.\<close>

datatype py_value =
    PyInt int | PyBool bool | PyFloat real | NpInt int | NpFloat real | PyNone | PyStr string

fun isinstance_int :: "py_value \<Rightarrow> bool" where
  "isinstance_int (PyInt i) = True"
| "isinstance_int (PyBool b) = True"
| "isinstance_int v = False"

text \<open>The integer an instance of \<^verbatim>\<open>int\<close> denotes in comparisons and as a list index.\<close>

fun int_value :: "py_value \<Rightarrow> int" where
  "int_value (PyInt i) = i"
| "int_value (PyBool b) = (if b then 1 else 0)"
| "int_value v = 0"

text \<open>What \<^verbatim>\<open>np.asarray(x)\<close> yields for the argument \<^verbatim>\<open>x\<close>: an array of dimension 0, 1
  or 2.\<close>

datatype array_like = Scalar real | Vec "real list" | Mat "real list list"

fun ndim :: "array_like \<Rightarrow> nat" where
  "ndim (Scalar a) = 0"
| "ndim (Vec xs) = 1"
| "ndim (Mat xss) = 2"

datatype parity = Even | Odd

text \<open>The one warning the function emits: \<^verbatim>\<open>UserWarning\<close> with the message
  \<^verbatim>\<open>Requested mode index {ind_m} >= found modes ({n}). Using highest mode index {n-1}.\<close>,
  kept as the two numbers of the message.\<close>

datatype py_warning = ModeIndexWarning int nat

subsection \<open>The characteristic functions and the branch filters\<close>

text \<open>The closures \<^verbatim>\<open>f_even\<close>, \<^verbatim>\<open>f_odd\<close>, \<^verbatim>\<open>valid_even\<close>, \<^verbatim>\<open>valid_odd\<close> take the variables
  they capture (\<open>w\<close>, \<open>n_WG\<close>, \<open>n0\<close>, \<open>k0\<close>) as leading arguments; \<open>None\<close> is Python's
  \<^verbatim>\<open>None\<close>. The tolerances \<^verbatim>\<open>1e-12\<close>, \<^verbatim>\<open>1e-9\<close> and the offset \<^verbatim>\<open>0.1\<close> are the decimal
  fractions they denote. At a pole of the tangent HOL's \<open>tan\<close> is \<open>0\<close>, while a double
  never is a pole; the theorems about all parameters below do not depend on any value
  of \<open>tan\<close>, and the examples stay away from the poles.\<close>

definition f_even :: "real \<Rightarrow> real \<Rightarrow> real \<Rightarrow> real \<Rightarrow> real \<Rightarrow> real option" where
  "f_even w n_WG n0 k0 beta =
     (if beta < n0 * k0 \<or> beta > n_WG * k0 then None
      else let inside = n_WG ^ 2 * k0 ^ 2 - beta ^ 2;
               outside = beta ^ 2 - n0 ^ 2 * k0 ^ 2
           in if inside \<le> 0 \<or> outside \<le> 0 then None
              else let kx = sqrt inside; kappa = sqrt outside
                   in Some (kx * tan (kx * w / 2) - kappa))"

definition f_odd :: "real \<Rightarrow> real \<Rightarrow> real \<Rightarrow> real \<Rightarrow> real \<Rightarrow> real option" where
  "f_odd w n_WG n0 k0 beta =
     (if beta < n0 * k0 \<or> beta > n_WG * k0 then None
      else let inside = n_WG ^ 2 * k0 ^ 2 - beta ^ 2;
               outside = beta ^ 2 - n0 ^ 2 * k0 ^ 2
           in if inside \<le> 0 \<or> outside \<le> 0 then None
              else let kx = sqrt inside; kappa = sqrt outside;
                       sin_term = sin (kx * w / 2)
                   in if \<bar>sin_term\<bar> < 1 / 10 ^ 12 then None
                      else Some (- kx * (cos (kx * w / 2) / sin_term) - kappa))"

definition valid_even :: "real \<Rightarrow> real \<Rightarrow> real \<Rightarrow> real \<Rightarrow> bool" where
  "valid_even w n_WG k0 beta =
     (let inside = n_WG ^ 2 * k0 ^ 2 - beta ^ 2
      in if inside \<le> 0 then False
         else let kx = sqrt inside; theta = kx * w / 2;
                  m = \<lfloor>2 * theta / pi\<rfloor>
              in if m mod 2 = 0 then \<not> (m = 0 \<and> theta > pi / 2 - 1 / 10) else False)"

definition valid_odd :: "real \<Rightarrow> real \<Rightarrow> real \<Rightarrow> real \<Rightarrow> bool" where
  "valid_odd w n_WG k0 beta =
     (let inside = n_WG ^ 2 * k0 ^ 2 - beta ^ 2
      in if inside \<le> 0 then False
         else let kx = sqrt inside; theta = kx * w / 2;
                  m = \<lfloor>2 * theta / pi\<rfloor>
              in m mod 2 = 1)"

subsection \<open>Scan, bracketing and bisection\<close>

text \<open>\<^verbatim>\<open>np.linspace(start, stop, num)\<close>: \<open>num\<close> samples \<open>start + i * step\<close> with
  \<open>step = (stop - start) / (num - 1)\<close>, the last one set to \<open>stop\<close>.\<close>

definition linspace :: "real \<Rightarrow> real \<Rightarrow> nat \<Rightarrow> real list" where
  "linspace start stop num =
     (if num = 0 then []
      else if num = 1 then [start]
      else let step = (stop - start) / real (num - 1)
           in map (\<lambda>i. real i * step + start) [0..<num - 1] @ [stop])"

text \<open>The bracketing loop (source lines 127 to 141) for one of the two functions:
  \<open>vals\<close> is the list of its values at the samples.\<close>

definition sign_change :: "real option \<Rightarrow> real option \<Rightarrow> bool" where
  "sign_change a b =
     (case a of None \<Rightarrow> False
      | Some val_i \<Rightarrow> (case b of None \<Rightarrow> False
          | Some val_i_plus_1 \<Rightarrow> val_i * val_i_plus_1 < 0))"

definition intervals :: "real option list \<Rightarrow> real list \<Rightarrow> nat \<Rightarrow> (real \<times> real) list" where
  "intervals vals beta_scan N =
     map (\<lambda>i. (beta_scan ! i, beta_scan ! (i + 1)))
       (filter (\<lambda>i. sign_change (vals ! i) (vals ! (i + 1))) [0..<N - 1])"

text \<open>\<^verbatim>\<open>refine_root\<close>: the loop \<^verbatim>\<open>for _ in range(50)\<close> with the passes left to run as the
  first argument and the loop variables \<^verbatim>\<open>b_left\<close>, \<^verbatim>\<open>b_right\<close>, \<^verbatim>\<open>b_mid\<close> as state. The
  early \<^verbatim>\<open>return b_mid\<close> leaves the loop; after the last pass the function returns the
  \<^verbatim>\<open>b_mid\<close> of that pass. Before the first pass \<^verbatim>\<open>b_mid\<close> is unbound; the first pass
  binds it, so the initial value given here is never returned.\<close>

fun refine_loop :: "nat \<Rightarrow> (real \<Rightarrow> real option) \<Rightarrow> real \<Rightarrow> real \<Rightarrow> real \<Rightarrow> real" where
  "refine_loop 0 f b_left b_right b_mid = b_mid"
| "refine_loop (Suc n) f b_left b_right b_mid0 =
     (let b_mid = 0.5 * (b_left + b_right)
      in case f b_mid of
           None \<Rightarrow> refine_loop n f b_left b_mid b_mid
         | Some val_mid \<Rightarrow>
             if \<bar>val_mid\<bar> < 1 / 10 ^ 9 then b_mid
             else (case f b_left of
                     None \<Rightarrow> refine_loop n f b_mid b_right b_mid
                   | Some val_left \<Rightarrow>
                       if val_left * val_mid > 0 then refine_loop n f b_mid b_right b_mid
                       else refine_loop n f b_left b_mid b_mid))"

definition refine_root :: "(real \<Rightarrow> real option) \<Rightarrow> real \<Rightarrow> real \<Rightarrow> real" where
  "refine_root f b_left b_right = refine_loop 50 f b_left b_right 0"

text \<open>The two loops that refine and filter the brackets (source lines 161 to 170).\<close>

definition roots ::
  "(real \<Rightarrow> real option) \<Rightarrow> (real \<Rightarrow> bool) \<Rightarrow> (real \<times> real) list \<Rightarrow> real list" where
  "roots f valid ivs = filter valid (map (\<lambda>(b_left, b_right). refine_root f b_left b_right) ivs)"

text \<open>Source lines 121 to 173: the scan with \<open>N = 2000\<close> samples, the roots of both
  parities, and the list of modes sorted by \<open>\<beta>\<close>, largest first. Python's \<^verbatim>\<open>sorted\<close> is
  stable, also with \<^verbatim>\<open>reverse=True\<close>; \<open>sort_key\<close> is a stable insertion sort.\<close>

definition even_roots :: "real \<Rightarrow> real \<Rightarrow> real \<Rightarrow> real \<Rightarrow> real list" where
  "even_roots w n_WG n0 k0 =
     (let N = 2000;
          beta_scan = linspace (n0 * k0) (n_WG * k0) N;
          f_even_vals = map (f_even w n_WG n0 k0) beta_scan;
          even_intervals = intervals f_even_vals beta_scan N
      in roots (f_even w n_WG n0 k0) (valid_even w n_WG k0) even_intervals)"

definition odd_roots :: "real \<Rightarrow> real \<Rightarrow> real \<Rightarrow> real \<Rightarrow> real list" where
  "odd_roots w n_WG n0 k0 =
     (let N = 2000;
          beta_scan = linspace (n0 * k0) (n_WG * k0) N;
          f_odd_vals = map (f_odd w n_WG n0 k0) beta_scan;
          odd_intervals = intervals f_odd_vals beta_scan N
      in roots (f_odd w n_WG n0 k0) (valid_odd w n_WG k0) odd_intervals)"

definition modes_sorted :: "real \<Rightarrow> real \<Rightarrow> real \<Rightarrow> real \<Rightarrow> (parity \<times> real) list" where
  "modes_sorted w n_WG n0 k0 =
     (let modes = map (Pair Even) (even_roots w n_WG n0 k0)
                  @ map (Pair Odd) (odd_roots w n_WG n0 k0)
      in sort_key (\<lambda>tup. - snd tup) modes)"

subsection \<open>Field construction and normalisation\<close>

text \<open>Source lines 190 to 208: the field of the chosen mode on the grid \<open>x\<close>, as a
  \<^verbatim>\<open>complex128\<close> array.\<close>

definition mode_field ::
  "parity \<Rightarrow> real \<Rightarrow> real \<Rightarrow> real \<Rightarrow> real \<Rightarrow> real list \<Rightarrow> complex list" where
  "mode_field par kx kappa w x0 x =
     (case par of
        Even \<Rightarrow>
          map (\<lambda>xi. let xp = xi - x0
                    in if \<bar>xp\<bar> \<le> w / 2 then complex_of_real (cos (kx * xp))
                       else complex_of_real
                              (cos (kx * (w / 2)) * exp (- kappa * (\<bar>xp\<bar> - w / 2)))) x
      | Odd \<Rightarrow>
          map (\<lambda>xi. let xp = xi - x0
                    in if \<bar>xp\<bar> \<le> w / 2 then complex_of_real (sin (kx * xp))
                       else complex_of_real
                              (sgn xp * sin (kx * (w / 2))
                                 * exp (- kappa * (\<bar>xp\<bar> - w / 2)))) x)"

text \<open>\<^verbatim>\<open>np.trapezoid(y, x)\<close> for one-dimensional arrays of equal length:
  \<^verbatim>\<open>d = diff(x); sum(d * (y[1:] + y[:-1]) / 2.0)\<close>.\<close>

definition np_diff :: "real list \<Rightarrow> real list" where
  "np_diff x = map2 (-) (tl x) (butlast x)"

definition trapezoid :: "real list \<Rightarrow> real list \<Rightarrow> real" where
  "trapezoid y x =
     sum_list (map2 (\<lambda>d s. d * s / 2) (np_diff x) (map2 (+) (tl y) (butlast y)))"

text \<open>Source lines 209 and 210. Where \<open>norm\<close> is \<open>0\<close> numpy fills the result with
  \<open>nan\<close>/\<open>inf\<close> and warns; here the entries are HOL's \<open>e / 0 = 0\<close> (see the conventions
  above).\<close>

definition power_integral :: "complex list \<Rightarrow> real list \<Rightarrow> real" where
  "power_integral E x = trapezoid (map (\<lambda>e. (cmod e) ^ 2) E) x"

definition normalize :: "complex list \<Rightarrow> real list \<Rightarrow> complex list" where
  "normalize E x =
     (let norm = sqrt (power_integral E x)
      in map (\<lambda>e. e / complex_of_real norm) E)"

subsection \<open>\<^verbatim>\<open>slab_mode_source\<close>\<close>

text \<open>Source lines 184 to 208 for the entry \<open>(parity, beta_chosen)\<close> of the sorted
  list: the field before it is normalised.\<close>

definition raw_field_of_mode ::
  "parity \<times> real \<Rightarrow> real \<Rightarrow> real \<Rightarrow> real \<Rightarrow> real \<Rightarrow> real \<Rightarrow> real list \<Rightarrow> complex list" where
  "raw_field_of_mode mode w n_WG n0 k0 x0 x =
     (let par = fst mode; beta_chosen = snd mode;
          inside = n_WG ^ 2 * k0 ^ 2 - beta_chosen ^ 2;
          outside = beta_chosen ^ 2 - n0 ^ 2 * k0 ^ 2;
          kx = sqrt inside;
          kappa = sqrt outside
      in mode_field par kx kappa w x0 x)"

definition field_of_mode ::
  "parity \<times> real \<Rightarrow> real \<Rightarrow> real \<Rightarrow> real \<Rightarrow> real \<Rightarrow> real \<Rightarrow> real list \<Rightarrow> complex list" where
  "field_of_mode mode w n_WG n0 k0 x0 x =
     normalize (raw_field_of_mode mode w n_WG n0 k0 x0 x) x"

text \<open>Source lines 176 to 182: the warnings emitted and the index used, for the
  requested index and the number of modes found.\<close>

definition clamp_index :: "int \<Rightarrow> nat \<Rightarrow> py_warning list \<times> nat" where
  "clamp_index ind_m n =
     (if ind_m \<ge> int n then ([ModeIndexWarning ind_m n], n - 1) else ([], nat ind_m))"

text \<open>The whole function: the result is the exception raised, or the warnings emitted
  together with the returned array.\<close>

definition slab_mode_source ::
  "array_like \<Rightarrow> real \<Rightarrow> real \<Rightarrow> real \<Rightarrow> real \<Rightarrow> py_value \<Rightarrow> real
     \<Rightarrow> py_error + (py_warning list \<times> complex list)" where
  "slab_mode_source x w n_WG n0 wavelength ind_m x0 =
     (if ndim x \<noteq> 1 then Inl (ValueError ''x must be 1D array'')
      else if w \<le> 0 then Inl (ValueError ''Waveguide width w must be positive'')
      else if n_WG \<le> n0 then
        Inl (ValueError ''Core index n_WG must be greater than cladding index n0'')
      else if n0 \<le> 0 then Inl (ValueError ''Cladding index n0 must be positive'')
      else if wavelength \<le> 0 then Inl (ValueError ''Wavelength must be positive'')
      else if \<not> isinstance_int ind_m \<or> int_value ind_m < 0 then
        Inl (ValueError ''Mode index ind_m must be non-negative integer'')
      else
        let k0 = 2 * pi / wavelength;
            ms = modes_sorted w n_WG n0 k0;
            xs = (case x of Vec xs \<Rightarrow> xs | _ \<Rightarrow> [])
        in if length ms = 0 then
             Inl (ValueError ''No guided slab modes found in [n0*k0, n_WG*k0].'')
           else
             let (warnings, i) = clamp_index (int_value ind_m) (length ms)
             in Inr (warnings, field_of_mode (ms ! i) w n_WG n0 k0 x0 xs))"

section \<open>Auxiliary notions for the statements\<close>

text \<open>The length of the result of a successful broadcast of two one-dimensional
  operands of lengths \<open>a\<close> and \<open>b\<close>.\<close>

definition blen :: "nat \<Rightarrow> nat \<Rightarrow> nat" where
  "blen a b = (if a = b then a else if a = 1 then b else a)"

text \<open>The classic fourth-order Runge-Kutta combination, entry by entry, of a column
  \<open>E_prev\<close> and four derivative vectors of the same length.\<close>

definition rk4_next ::
  "complex list \<Rightarrow> real \<Rightarrow> complex list \<Rightarrow> complex list \<Rightarrow> complex list \<Rightarrow> complex list
    \<Rightarrow> complex list" where
  "rk4_next E_prev dz d1 d2 d3 d4 =
     map2 (+) E_prev
       (divide_by
          (map2 (+) (map2 (+) (map2 (+) (scale dz d1) (scale 2 (scale dz d2)))
                       (scale 2 (scale dz d3)))
             (scale dz d4)) 6)"


definition beta_scan :: "real \<Rightarrow> real \<Rightarrow> real \<Rightarrow> real list" where
  "beta_scan n_WG n0 k0 = linspace (n0 * k0) (n_WG * k0) 2000"

text \<open>Two parameter sets used as examples below, with the root the bisection returns
  in one bracket of each: a thick slab (\<open>w = 127/128\<close>, \<open>n_WG = 25.01\<close>, \<open>n0 = 5.02\<close>,
  \<open>wavelength = 1\<close>, bracket 1997 of the odd function) and a thin slab (\<open>w = sqrt 6 / 48\<close>,
  \<open>n_WG = 7\<close>, \<open>n0 = 1\<close>, \<open>wavelength = 1\<close>, bracket 1332 of the even function).\<close>

definition thick_root :: real where
  "thick_root = refine_root (f_odd (127 / 128) (2501 / 100) (251 / 50) (2 * pi))
                  (2 * pi * (2499 / 100)) (2 * pi * 25)"

definition thin_root :: real where
  "thin_root = refine_root (f_even (sqrt 6 / 48) 7 1 (2 * pi))
                  (2 * pi * (9991 / 1999)) (2 * pi * (9997 / 1999))"


section \<open>The propagation engine: facts about the primitives\<close>

lemma length_np_roll [simp]: "length (np_roll a s) = length a"
  by (auto simp: np_roll_def Let_def)

lemma nth_np_roll:
  assumes "i < length a"
  shows "np_roll a s ! i = a ! nat ((int i - s) mod int (length a))"
proof -
  let ?n = "length a"
  let ?s = "nat (s mod int ?n)"
  have n: "0 < ?n" using assms by auto
  have s: "?s < ?n" using n by (simp add: nat_less_iff)
  have roll: "np_roll a s = drop (?n - ?s) a @ take (?n - ?s) a"
    using n by (simp add: np_roll_def Let_def)
  show ?thesis
  proof (cases "i < ?s")
    case True
    have "np_roll a s ! i = a ! (?n - ?s + i)"
      using True s by (simp add: roll nth_append)
    moreover have "(int i - s) mod int ?n = int (?n - ?s + i)"
    proof -
      have "(int i - s) mod int ?n = (int i - s mod int ?n) mod int ?n"
        by (simp add: mod_diff_right_eq)
      also have "\<dots> = (int i - int ?s) mod int ?n" using n by simp
      also have "\<dots> = (int i - int ?s + int ?n) mod int ?n" by simp
      also have "\<dots> = int i - int ?s + int ?n"
        using True s assms by (intro mod_pos_pos_trivial) auto
      finally show ?thesis using s by (simp add: of_nat_diff)
    qed
    ultimately show ?thesis by (simp add: nat_int_add)
  next
    case False
    have "np_roll a s ! i = a ! (i - ?s)"
      using False s assms by (simp add: roll nth_append min_def)
    moreover have "(int i - s) mod int ?n = int (i - ?s)"
    proof -
      have "(int i - s) mod int ?n = (int i - s mod int ?n) mod int ?n"
        by (simp add: mod_diff_right_eq)
      also have "\<dots> = (int i - int ?s) mod int ?n" using n by simp
      also have "\<dots> = int i - int ?s"
        using False s assms by (intro mod_pos_pos_trivial) auto
      finally show ?thesis using False by (simp add: of_nat_diff)
    qed
    ultimately show ?thesis by simp
  qed
qed

lemma length_laplacian_E [simp]: "length (laplacian_E E dx) = length E"
  by (simp add: laplacian_E_def)

lemma length_laplacian_term [simp]: "length (laplacian_term E dx n0 k0) = length E"
  by (simp add: laplacian_term_def)

lemma length_index_coeff [simp]: "length (index_coeff n n0 k0) = length n"
  by (simp add: index_coeff_def)

lemma length_scale [simp]: "length (scale a v) = length v"
  by (simp add: scale_def)

lemma length_divide_by [simp]: "length (divide_by v a) = length v"
  by (simp add: divide_by_def)

lemma nth_laplacian_E:
  "i < length E \<Longrightarrow>
   laplacian_E E dx ! i =
     (E ! nat ((int i - 1) mod int (length E)) - 2 * E ! i
        + E ! nat ((int i + 1) mod int (length E))) / of_real (dx ^ 2)"
  by (simp add: laplacian_E_def nth_np_roll)

lemma broadcast2_same:
  "length u = length v \<Longrightarrow> broadcast2 f u v = Inr (map2 f u v)"
  by (simp add: broadcast2_def)

lemma broadcast2_Inr:
  assumes "broadcast2 f u v = Inr r"
  shows "length r = blen (length u) (length v)"
    and "length u = length v \<or> length u = 1 \<or> length v = 1"
  using assms by (auto simp: broadcast2_def blen_def split: if_splits)

lemma compute_dE_dz_same:
  assumes "length n_r2_slice = length E_slice" "length sigma_x = length E_slice"
    "k0 \<noteq> 0" "n0 \<noteq> 0"
  shows "compute_dE_dz E_slice n_r2_slice dx n0 sigma_x k0 =
    Inr (map (\<lambda>i.
       (\<i> / of_real (2 * k0 * n0)) *
         ((E_slice ! nat ((int i + 1) mod int (length E_slice)) - 2 * E_slice ! i
            + E_slice ! nat ((int i - 1) mod int (length E_slice))) / of_real (dx ^ 2))
       + \<i> * of_real (k0 / (2 * n0)) * of_real (n_r2_slice ! i - n0 ^ 2) * E_slice ! i
       - of_real (sigma_x ! i) * E_slice ! i) [0..<length E_slice])"
proof -
  have "compute_dE_dz E_slice n_r2_slice dx n0 sigma_x k0 =
     Inr (map2 (+) (map2 (+) (laplacian_term E_slice dx n0 k0)
                      (map2 (*) (index_coeff n_r2_slice n0 k0) E_slice))
            (map2 (\<lambda>s e. of_real s * e) (map uminus sigma_x) E_slice))"
    using assms by (simp add: compute_dE_dz_def bind_err_def broadcast2_same)
  also have "\<dots> = Inr (map (\<lambda>i.
       (\<i> / of_real (2 * k0 * n0)) *
         ((E_slice ! nat ((int i + 1) mod int (length E_slice)) - 2 * E_slice ! i
            + E_slice ! nat ((int i - 1) mod int (length E_slice))) / of_real (dx ^ 2))
       + \<i> * of_real (k0 / (2 * n0)) * of_real (n_r2_slice ! i - n0 ^ 2) * E_slice ! i
       - of_real (sigma_x ! i) * E_slice ! i) [0..<length E_slice])"
    using assms
    by (auto intro!: nth_equalityI
        simp: laplacian_term_def nth_laplacian_E index_coeff_def ac_simps)
  finally show ?thesis .
qed

lemma compute_dE_dz_length:
  assumes "compute_dE_dz E n dx n0 sg k0 = Inr d"
  shows "length d = blen (blen (length E) (blen (length n) (length E))) (blen (length sg) (length E))"
    and "length E = length d \<or> length E = 1"
proof -
  from assms obtain it dt s where
    it: "broadcast2 (*) (index_coeff n n0 k0) E = Inr it"
    and dt: "broadcast2 (\<lambda>s e. of_real s * e) (map uminus sg) E = Inr dt"
    and s: "broadcast2 (+) (laplacian_term E dx n0 k0) it = Inr s"
    and d: "broadcast2 (+) s dt = Inr d"
    unfolding compute_dE_dz_def bind_err_def
    by (auto split: if_splits sum.splits)
  have l1: "length it = blen (length n) (length E)" using broadcast2_Inr(1)[OF it] by simp
  have l2: "length dt = blen (length sg) (length E)" using broadcast2_Inr(1)[OF dt] by simp
  have l3: "length s = blen (length E) (length it)" using broadcast2_Inr(1)[OF s] by simp
  have l4: "length d = blen (length s) (length dt)" using broadcast2_Inr(1)[OF d] by simp
  show "length d = blen (blen (length E) (blen (length n) (length E))) (blen (length sg) (length E))"
    using l1 l2 l3 l4 by simp
  have c1: "length n = length E \<or> length n = 1 \<or> length E = 1" using broadcast2_Inr(2)[OF it] by simp
  have c2: "length sg = length E \<or> length sg = 1 \<or> length E = 1" using broadcast2_Inr(2)[OF dt] by simp
  have c3: "length E = length it \<or> length E = 1 \<or> length it = 1" using broadcast2_Inr(2)[OF s] by simp
  have c4: "length s = length dt \<or> length s = 1 \<or> length dt = 1" using broadcast2_Inr(2)[OF d] by simp
  show "length E = length d \<or> length E = 1"
    using l1 l2 l3 l4 c1 c2 c3 c4 by (auto simp: blen_def split: if_splits)
qed

lemma broadcast2_Inr_same:
  "broadcast2 f u v = Inr r \<Longrightarrow> length u = length v \<Longrightarrow> r = map2 f u v"
  by (simp add: broadcast2_def)

lemma blen_simps [simp]: "blen a a = a"
  by (simp add: blen_def)

lemma blen_not1: "a \<noteq> Suc 0 \<Longrightarrow> blen a b = a"
  by (simp add: blen_def)

lemma blen_1 [simp]: "blen (Suc 0) b = b"
  by (simp add: blen_def)

lemma blen_eq1: "blen a b = Suc 0 \<Longrightarrow> a = Suc 0 \<and> b = Suc 0"
  by (auto simp: blen_def split: if_splits)

lemma rk4_column_Inr:
  assumes step: "rk4_column P n dx dz n0 sg k0 = Inr En"
    and len: "length En = length P"
  shows "\<exists>d1 d2 d3 d4.
      compute_dE_dz P n dx n0 sg k0 = Inr d1 \<and>
      compute_dE_dz (map2 (+) P (divide_by (scale dz d1) 2)) n dx n0 sg k0 = Inr d2 \<and>
      compute_dE_dz (map2 (+) P (divide_by (scale dz d2) 2)) n dx n0 sg k0 = Inr d3 \<and>
      compute_dE_dz (map2 (+) P (scale dz d3)) n dx n0 sg k0 = Inr d4 \<and>
      length d1 = length P \<and> length d2 = length P \<and>
      length d3 = length P \<and> length d4 = length P \<and>
      En = rk4_next P dz d1 d2 d3 d4"
proof -
  from step obtain d1 E1 d2 E2 d3 E3 d4 s1 s2 s3 where
    d1: "compute_dE_dz P n dx n0 sg k0 = Inr d1"
    and E1: "broadcast2 (+) P (divide_by (scale dz d1) 2) = Inr E1"
    and d2: "compute_dE_dz E1 n dx n0 sg k0 = Inr d2"
    and E2: "broadcast2 (+) P (divide_by (scale dz d2) 2) = Inr E2"
    and d3: "compute_dE_dz E2 n dx n0 sg k0 = Inr d3"
    and E3: "broadcast2 (+) P (scale dz d3) = Inr E3"
    and d4: "compute_dE_dz E3 n dx n0 sg k0 = Inr d4"
    and s1: "broadcast2 (+) (scale dz d1) (scale 2 (scale dz d2)) = Inr s1"
    and s2: "broadcast2 (+) s1 (scale 2 (scale dz d3)) = Inr s2"
    and s3: "broadcast2 (+) s2 (scale dz d4) = Inr s3"
    and En: "broadcast2 (+) P (divide_by s3 6) = Inr En"
    unfolding rk4_column_def bind_err_def Let_def
    by (auto split: if_splits sum.splits)
  note L = broadcast2_Inr(1)[OF E1] broadcast2_Inr(1)[OF E2] broadcast2_Inr(1)[OF E3]
    broadcast2_Inr(1)[OF s1] broadcast2_Inr(1)[OF s2] broadcast2_Inr(1)[OF s3]
    broadcast2_Inr(1)[OF En]
    compute_dE_dz_length(2)[OF d1] compute_dE_dz_length(2)[OF d2]
    compute_dE_dz_length(2)[OF d3] compute_dE_dz_length(2)[OF d4]
  have lens: "length d1 = length P \<and> length d2 = length P \<and> length d3 = length P
      \<and> length d4 = length P \<and> length E1 = length P \<and> length E2 = length P
      \<and> length E3 = length P \<and> length s1 = length P \<and> length s2 = length P
      \<and> length s3 = length P"
  proof (cases "length P = 1")
    case False
    have a1: "length d1 = length P" using L(8) False by simp
    have a2: "length E1 = length P" using L(1) False by (simp add: blen_not1)
    have a3: "length d2 = length P" using L(9) False a2 by simp
    have a4: "length E2 = length P" using L(2) False by (simp add: blen_not1)
    have a5: "length d3 = length P" using L(10) False a4 by simp
    have a6: "length E3 = length P" using L(3) False by (simp add: blen_not1)
    have a7: "length d4 = length P" using L(11) False a6 by simp
    have a8: "length s1 = length P" using L(4) a1 a3 by simp
    have a9: "length s2 = length P" using L(5) a8 a5 by simp
    have a10: "length s3 = length P" using L(6) a9 a7 by simp
    show ?thesis using a1 a2 a3 a4 a5 a6 a7 a8 a9 a10 by simp
  next
    case True
    have "length En = length s3" using L(7) True by simp
    then have e1: "length s3 = 1" using len True by auto
    have e2: "length s2 = 1 \<and> length d4 = 1"
      using L(6) e1 blen_eq1[of "length s2" "length (scale dz d4)"] by simp
    have e3: "length s1 = 1 \<and> length d3 = 1"
      using L(5) e2 blen_eq1[of "length s1" "length (scale 2 (scale dz d3))"] by simp
    have e4: "length d1 = 1 \<and> length d2 = 1"
      using L(4) e3 blen_eq1[of "length (scale dz d1)" "length (scale 2 (scale dz d2))"] by simp
    show ?thesis using True e1 e2 e3 e4 L(1,2,3) by simp
  qed
  have E1': "E1 = map2 (+) P (divide_by (scale dz d1) 2)"
    using broadcast2_Inr_same[OF E1] lens by simp
  have E2': "E2 = map2 (+) P (divide_by (scale dz d2) 2)"
    using broadcast2_Inr_same[OF E2] lens by simp
  have E3': "E3 = map2 (+) P (scale dz d3)"
    using broadcast2_Inr_same[OF E3] lens by simp
  have s1': "s1 = map2 (+) (scale dz d1) (scale 2 (scale dz d2))"
    using broadcast2_Inr_same[OF s1] lens by simp
  have s2': "s2 = map2 (+) s1 (scale 2 (scale dz d3))"
    using broadcast2_Inr_same[OF s2] lens by simp
  have s3': "s3 = map2 (+) s2 (scale dz d4)"
    using broadcast2_Inr_same[OF s3] lens by simp
  have En': "En = map2 (+) P (divide_by s3 6)"
    using broadcast2_Inr_same[OF En] lens by simp
  then have "En = rk4_next P dz d1 d2 d3 d4"
    by (simp add: rk4_next_def En' s3' s2' s1')
  then show ?thesis
    using d1 d2 d3 d4 lens unfolding E1' E2' E3' by blast
qed

lemma rk4_column_same:
  assumes "length n = length P" "length sg = length P" "k0 \<noteq> 0" "n0 \<noteq> 0"
  shows "\<exists>v. rk4_column P n dx dz n0 sg k0 = Inr v \<and> length v = length P"
proof -
  have c: "\<And>Q. length Q = length P \<Longrightarrow>
      \<exists>d. compute_dE_dz Q n dx n0 sg k0 = Inr d \<and> length d = length P"
    using assms by (simp add: compute_dE_dz_same)
  obtain d1 where d1: "compute_dE_dz P n dx n0 sg k0 = Inr d1" "length d1 = length P"
    using c[of P] by auto
  obtain d2 where d2: "compute_dE_dz (map2 (+) P (divide_by (scale dz d1) 2)) n dx n0 sg k0 = Inr d2"
    "length d2 = length P"
    using c[of "map2 (+) P (divide_by (scale dz d1) 2)"] d1 by auto
  obtain d3 where d3: "compute_dE_dz (map2 (+) P (divide_by (scale dz d2) 2)) n dx n0 sg k0 = Inr d3"
    "length d3 = length P"
    using c[of "map2 (+) P (divide_by (scale dz d2) 2)"] d2 by auto
  obtain d4 where d4: "compute_dE_dz (map2 (+) P (scale dz d3)) n dx n0 sg k0 = Inr d4"
    "length d4 = length P"
    using c[of "map2 (+) P (scale dz d3)"] d3 by auto
  show ?thesis
    unfolding rk4_column_def bind_err_def Let_def
    using d1 d2 d3 d4 by (simp add: broadcast2_same)
qed

lemma bpm_step_Inr:
  assumes "bpm_step E n_r2 dx dz n0 sg k0 zi = Inr E'"
  shows "zi - 1 < ncols E \<and> zi < ncols E \<and> zi - 1 < ncols n_r2 \<and>
     (\<exists>v. rk4_column (E ! (zi - 1)) (n_r2 ! (zi - 1)) dx dz n0 sg k0 = Inr v \<and>
        (length v = length (E ! zi) \<and> E' = E[zi := v] \<or>
         length v \<noteq> length (E ! zi) \<and> length v = 1 \<and>
           E' = E[zi := replicate (length (E ! zi)) (hd v)]))"
  using assms unfolding bpm_step_def bind_err_def get_col_def set_col_def
  by (auto split: if_splits sum.splits)

lemma bpm_step_same:
  assumes "zi - 1 < ncols E" "zi < ncols E" "zi - 1 < ncols n_r2"
    "rk4_column (E ! (zi - 1)) (n_r2 ! (zi - 1)) dx dz n0 sg k0 = Inr v"
    "length v = length (E ! zi)"
  shows "bpm_step E n_r2 dx dz n0 sg k0 zi = Inr (E[zi := v])"
  using assms unfolding bpm_step_def bind_err_def get_col_def set_col_def
  by simp

lemma rect_nth: "rect Nx A \<Longrightarrow> j < ncols A \<Longrightarrow> length (A ! j) = Nx"
  by (simp add: rect_def ncols_def list_all_length)

lemma rect_update: "rect Nx A \<Longrightarrow> length v = Nx \<Longrightarrow> rect Nx (A[j := v])"
  using set_update_subset_insert[of A j v] by (auto simp: rect_def list_all_iff)

lemma ncols_update [simp]: "ncols (A[j := v]) = ncols A"
  by (simp add: ncols_def)

lemma rk4_column_length:
  assumes "rk4_column P n dx dz n0 sg k0 = Inr v"
  shows "length v = length P \<or> length P = 1"
proof -
  from assms obtain s3 where "broadcast2 (+) P (divide_by s3 6) = Inr v"
    unfolding rk4_column_def bind_err_def Let_def
    by (auto split: if_splits sum.splits)
  from broadcast2_Inr(1)[OF this] show ?thesis
    by (auto simp: blen_def split: if_splits)
qed


lemma bpm_step_rect:
  assumes "bpm_step E n_r2 dx dz n0 sg k0 zi = Inr E'" "rect Nx E"
  shows "zi - 1 < ncols E \<and> zi < ncols E \<and> zi - 1 < ncols n_r2 \<and>
     (\<exists>v. rk4_column (E ! (zi - 1)) (n_r2 ! (zi - 1)) dx dz n0 sg k0 = Inr v \<and>
        length v = Nx \<and> E' = E[zi := v])"
proof -
  from bpm_step_Inr[OF assms(1)] obtain v where
    c: "zi - 1 < ncols E" "zi < ncols E" "zi - 1 < ncols n_r2"
    and v: "rk4_column (E ! (zi - 1)) (n_r2 ! (zi - 1)) dx dz n0 sg k0 = Inr v"
    and alt: "length v = length (E ! zi) \<and> E' = E[zi := v] \<or>
         length v \<noteq> length (E ! zi) \<and> length v = 1 \<and>
           E' = E[zi := replicate (length (E ! zi)) (hd v)]"
    by blast
  have "length (E ! zi) = Nx" using rect_nth[OF assms(2) c(2)] .
  moreover have "length (E ! (zi - 1)) = Nx" using rect_nth[OF assms(2) c(1)] .
  moreover have "length v = length (E ! (zi - 1)) \<or> length (E ! (zi - 1)) = 1"
    using rk4_column_length[OF v] .
  ultimately have "length v = Nx \<and> E' = E[zi := v]" using alt by auto
  then show ?thesis using c v by blast
qed

lemma march_inv:
  assumes "rect Nx (field s)" "1 \<le> a" "raised s = None"
  shows "\<exists>c. a \<le> c \<and> (c \<le> b \<or> c = a)
     \<and> written (march n_r2 dx dz n0 sg k0 [a..<b] s) = written s @ [a..<c]
     \<and> (raised (march n_r2 dx dz n0 sg k0 [a..<b] s) = None \<longrightarrow> [a..<c] = [a..<b])
     \<and> (raised (march n_r2 dx dz n0 sg k0 [a..<b] s) \<noteq> None \<longrightarrow> c < b \<and>
          (\<exists>e. raised (march n_r2 dx dz n0 sg k0 [a..<b] s) = Some e \<and>
             bpm_step (field (march n_r2 dx dz n0 sg k0 [a..<b] s)) n_r2 dx dz n0 sg k0 c = Inl e))
     \<and> rect Nx (field (march n_r2 dx dz n0 sg k0 [a..<b] s))
     \<and> ncols (field (march n_r2 dx dz n0 sg k0 [a..<b] s)) = ncols (field s)
     \<and> (\<forall>j. j < a \<or> c \<le> j \<longrightarrow> field (march n_r2 dx dz n0 sg k0 [a..<b] s) ! j = field s ! j)
     \<and> (\<forall>zi. a \<le> zi \<and> zi < c \<longrightarrow> zi < ncols (field s) \<and> zi - 1 < ncols n_r2 \<and>
           rk4_column (field (march n_r2 dx dz n0 sg k0 [a..<b] s) ! (zi - 1)) (n_r2 ! (zi - 1))
              dx dz n0 sg k0 = Inr (field (march n_r2 dx dz n0 sg k0 [a..<b] s) ! zi))"
  using assms
proof (induction "b - a" arbitrary: a s)
  case 0
  then have "[a..<b] = []" by simp
  then show ?case using 0 by (intro exI[of _ a]) auto
next
  case (Suc k)
  then have ab: "a < b" and up: "[a..<b] = a # [Suc a..<b]"
    by (auto simp: upt_conv_Cons)
  let ?m = "march n_r2 dx dz n0 sg k0"
  show ?case
  proof (cases "bpm_step (field s) n_r2 dx dz n0 sg k0 a")
    case (Inl e)
    then have m: "?m [a..<b] s = s\<lparr>raised := Some e\<rparr>" by (simp add: up)
    show ?thesis unfolding m using Inl ab Suc.prems
      by (intro exI[of _ a]) auto
  next
    case (Inr E')
    let ?s1 = "s\<lparr>field := E', written := written s @ [a]\<rparr>"
    have m: "?m [a..<b] s = ?m [Suc a..<b] ?s1" using Inr by (simp add: up)
    from bpm_step_rect[OF Inr Suc.prems(1)] obtain v where
      c: "a - 1 < ncols (field s)" "a < ncols (field s)" "a - 1 < ncols n_r2"
      and v: "rk4_column (field s ! (a - 1)) (n_r2 ! (a - 1)) dx dz n0 sg k0 = Inr v"
      and lv: "length v = Nx" and E': "E' = (field s)[a := v]"
      by blast
    have r1: "rect Nx (field ?s1)" using E' lv Suc.prems(1) by (simp add: rect_update)
    have k: "k = b - Suc a" using Suc.hyps(2) by simp
    have n1: "raised ?s1 = None" using Suc.prems(3) by simp
    have a1: "1 \<le> Suc a" by simp
    from Suc.hyps(1)[OF k r1 a1 n1] obtain c where
      c1: "Suc a \<le> c" "c \<le> b \<or> c = Suc a"
      and w: "written (?m [Suc a..<b] ?s1) = written ?s1 @ [Suc a..<c]"
      and ok: "raised (?m [Suc a..<b] ?s1) = None \<longrightarrow> [Suc a..<c] = [Suc a..<b]"
      and bad: "raised (?m [Suc a..<b] ?s1) \<noteq> None \<longrightarrow> c < b \<and>
          (\<exists>e. raised (?m [Suc a..<b] ?s1) = Some e \<and>
             bpm_step (field (?m [Suc a..<b] ?s1)) n_r2 dx dz n0 sg k0 c = Inl e)"
      and re: "rect Nx (field (?m [Suc a..<b] ?s1))"
      and nc: "ncols (field (?m [Suc a..<b] ?s1)) = ncols (field ?s1)"
      and fr: "\<forall>j. j < Suc a \<or> c \<le> j \<longrightarrow> field (?m [Suc a..<b] ?s1) ! j = field ?s1 ! j"
      and rk: "\<forall>zi. Suc a \<le> zi \<and> zi < c \<longrightarrow> zi < ncols (field ?s1) \<and> zi - 1 < ncols n_r2 \<and>
           rk4_column (field (?m [Suc a..<b] ?s1) ! (zi - 1)) (n_r2 ! (zi - 1))
              dx dz n0 sg k0 = Inr (field (?m [Suc a..<b] ?s1) ! zi)"
      by (elim exE conjE) (rule that; assumption)
    have fs1: "field ?s1 = E'" and ws1: "written ?s1 = written s @ [a]" by simp_all
    have cb: "c \<le> b" using c1 ab by auto
    have g1: "written (?m [a..<b] s) = written s @ [a..<c]"
      using w c1 unfolding m ws1 by (simp add: upt_conv_Cons)
    have g2: "raised (?m [a..<b] s) = None \<longrightarrow> [a..<c] = [a..<b]"
      using ok c1 ab unfolding m by (simp add: upt_conv_Cons)
    have g3: "raised (?m [a..<b] s) \<noteq> None \<longrightarrow> c < b \<and>
          (\<exists>e. raised (?m [a..<b] s) = Some e \<and>
             bpm_step (field (?m [a..<b] s)) n_r2 dx dz n0 sg k0 c = Inl e)"
      using bad unfolding m by simp
    have g4: "rect Nx (field (?m [a..<b] s))" using re unfolding m .
    have g5: "ncols (field (?m [a..<b] s)) = ncols (field s)"
      using nc E' unfolding m fs1 by simp
    have g6: "\<forall>j. j < a \<or> c \<le> j \<longrightarrow> field (?m [a..<b] s) ! j = field s ! j"
      using fr c1 E' unfolding m fs1 by auto
    have g7: "\<forall>zi. a \<le> zi \<and> zi < c \<longrightarrow> zi < ncols (field s) \<and> zi - 1 < ncols n_r2 \<and>
           rk4_column (field (?m [a..<b] s) ! (zi - 1)) (n_r2 ! (zi - 1))
              dx dz n0 sg k0 = Inr (field (?m [a..<b] s) ! zi)"
    proof (intro allI impI)
      fix zi assume z: "a \<le> zi \<and> zi < c"
      show "zi < ncols (field s) \<and> zi - 1 < ncols n_r2 \<and>
           rk4_column (field (?m [a..<b] s) ! (zi - 1)) (n_r2 ! (zi - 1))
              dx dz n0 sg k0 = Inr (field (?m [a..<b] s) ! zi)"
      proof (cases "zi = a")
        case True
        have "field (?m [a..<b] s) ! a = E' ! a" using fr unfolding m fs1 by simp
        moreover have "E' ! a = v" using E' c(2) by (simp add: ncols_def)
        moreover have "field (?m [a..<b] s) ! (a - 1) = field s ! (a - 1)"
          using fr E' Suc.prems(2) unfolding m fs1 by simp
        ultimately show ?thesis using True c v by simp
      next
        case False
        then have "Suc a \<le> zi \<and> zi < c" using z by simp
        then show ?thesis using rk E' unfolding m fs1 by simp
      qed
    qed
    show ?thesis
      using c1(1) cb g1 g2 g3 g4 g5 g6 g7 by (intro exI[of _ c]) simp
  qed
qed

lemma run_bpm_inv:
  assumes "rect Nx E"
  shows "\<exists>c. 1 \<le> c \<and> (c \<le> length z \<or> c = 1)
     \<and> written (run_bpm E n_r2 x z dx dz n0 sg wl) = [1..<c]
     \<and> (raised (run_bpm E n_r2 x z dx dz n0 sg wl) = None \<longrightarrow> [1..<c] = [1..<length z])
     \<and> (raised (run_bpm E n_r2 x z dx dz n0 sg wl) \<noteq> None \<longrightarrow>
          wl = 0 \<and> raised (run_bpm E n_r2 x z dx dz n0 sg wl) = Some ZeroDivisionError \<or>
          wl \<noteq> 0 \<and> c < length z \<and>
          (\<exists>e. raised (run_bpm E n_r2 x z dx dz n0 sg wl) = Some e \<and>
             bpm_step (field (run_bpm E n_r2 x z dx dz n0 sg wl)) n_r2 dx dz n0 sg (2 * pi / wl) c = Inl e))
     \<and> rect Nx (field (run_bpm E n_r2 x z dx dz n0 sg wl))
     \<and> ncols (field (run_bpm E n_r2 x z dx dz n0 sg wl)) = ncols E
     \<and> (\<forall>j. j < 1 \<or> c \<le> j \<longrightarrow> field (run_bpm E n_r2 x z dx dz n0 sg wl) ! j = E ! j)
     \<and> (\<forall>zi. 1 \<le> zi \<and> zi < c \<longrightarrow> zi < ncols E \<and> zi - 1 < ncols n_r2 \<and>
           rk4_column (field (run_bpm E n_r2 x z dx dz n0 sg wl) ! (zi - 1)) (n_r2 ! (zi - 1))
              dx dz n0 sg (2 * pi / wl) = Inr (field (run_bpm E n_r2 x z dx dz n0 sg wl) ! zi))"
proof (cases "wl = 0")
  case True
  then show ?thesis using assms by (intro exI[of _ 1]) (simp add: run_bpm_def)
next
  case False
  let ?s0 = "\<lparr>field = E, written = [], raised = None\<rparr>"
  have r: "run_bpm E n_r2 x z dx dz n0 sg wl
      = march n_r2 dx dz n0 sg (2 * pi / wl) [1..<length z] ?s0"
    using False by (simp add: run_bpm_def Let_def)
  have a: "rect Nx (field ?s0)" "(1::nat) \<le> 1" "raised ?s0 = None" using assms by simp_all
  from march_inv[OF a, where b = "length z" and ?n_r2.0 = n_r2 and dx = dx and dz = dz
      and ?n0.0 = n0 and sg = sg and ?k0.0 = "2 * pi / wl"]
  show ?thesis unfolding r using False by simp
qed

lemma run_bpm_succeeds:
  assumes E: "rect Nx E" and n: "rect Nx n_r2" and sg: "length sg = Nx"
    and cz: "length z \<le> ncols E" and cn: "length z - 1 \<le> ncols n_r2"
    and n0: "n0 \<noteq> 0" and wl: "wl \<noteq> 0"
  shows "raised (run_bpm E n_r2 x z dx dz n0 sg wl) = None"
proof (rule ccontr)
  let ?s = "run_bpm E n_r2 x z dx dz n0 sg wl"
  assume bad: "raised ?s \<noteq> None"
  from run_bpm_inv[OF E, where z = z and ?n_r2.0 = n_r2 and x = x and dx = dx and dz = dz
      and ?n0.0 = n0 and sg = sg and wl = wl] obtain c e where
    c: "1 \<le> c" "c < length z" and r: "rect Nx (field ?s)" and nc: "ncols (field ?s) = ncols E"
    and e: "bpm_step (field ?s) n_r2 dx dz n0 sg (2 * pi / wl) c = Inl e"
    using bad wl by auto
  have k0: "2 * pi / wl \<noteq> 0" using wl by simp
  have c1: "c - 1 < ncols (field ?s)" "c < ncols (field ?s)" "c - 1 < ncols n_r2"
    using c cz cn nc by auto
  have l1: "length (n_r2 ! (c - 1)) = length (field ?s ! (c - 1))"
    using rect_nth[OF n c1(3)] rect_nth[OF r c1(1)] by simp
  have l2: "length sg = length (field ?s ! (c - 1))"
    using sg rect_nth[OF r c1(1)] by simp
  from rk4_column_same[OF l1 l2 k0 n0, where dx = dx and dz = dz] obtain v where
    v: "rk4_column (field ?s ! (c - 1)) (n_r2 ! (c - 1)) dx dz n0 sg (2 * pi / wl) = Inr v"
    and lv: "length v = length (field ?s ! (c - 1))" by blast
  have "length v = length (field ?s ! c)"
    using lv rect_nth[OF r c1(1)] rect_nth[OF r c1(2)] by simp
  from bpm_step_same[OF c1 v this] e show False by simp
qed

lemma run_bpm_example_ok:
  "run_bpm [[1], [0]] [[1], [1]] [0, 1, 2] [0, 1] 1 1 1 [0] 1 =
    \<lparr>field = [[1], [1]], written = [1], raised = None\<rparr>"
  by (simp add: run_bpm_def bpm_step_def get_col_def ncols_def bind_err_def rk4_column_def
     compute_dE_dz_def broadcast2_def index_coeff_def laplacian_term_def laplacian_E_def np_roll_def
     scale_def divide_by_def set_col_def)

lemma run_bpm_example_late:
  "run_bpm [[1], [0]] [[1], [1]] [0] [0, 1, 2] 1 1 1 [0] 1 =
    \<lparr>field = [[1], [1]], written = [1], raised = Some IndexError\<rparr>"
  by (simp add: run_bpm_def bpm_step_def get_col_def ncols_def bind_err_def rk4_column_def
     compute_dE_dz_def broadcast2_def index_coeff_def laplacian_term_def laplacian_E_def np_roll_def
     scale_def divide_by_def set_col_def upt_conv_Cons)

section \<open>The propagation engine: the claims\<close>

text \<open>
  Claim C4. For a field slice \<open>E_slice\<close> of length \<open>Nx\<close>, with \<open>n_r2_slice\<close> and \<open>sigma_x\<close>
  of the same length and nonzero \<open>k0\<close> and \<open>n0\<close> (a zero would make the scalar quotients
  raise), \<open>compute_dE_dz\<close> returns the array whose entry \<open>i\<close> is
  \<open>(\<i> / (2 k0 n0)) (E[(i+1) mod Nx] - 2 E[i] + E[(i-1) mod Nx]) / dx\<^sup>2
     + \<i> (k0 / (2 n0)) (n_r2[i] - n0\<^sup>2) E[i] - sigma_x[i] E[i]\<close>:
  the finite-difference Laplacian wraps around at both transverse edges.
\<close>

theorem compute_dE_dz_pointwise:
  assumes "length n_r2_slice = length E_slice" and "length sigma_x = length E_slice"
    and "k0 \<noteq> 0" and "n0 \<noteq> 0"
  shows "compute_dE_dz E_slice n_r2_slice dx n0 sigma_x k0 =
    Inr (map (\<lambda>i.
       (\<i> / of_real (2 * k0 * n0)) *
         ((E_slice ! nat ((int i + 1) mod int (length E_slice)) - 2 * E_slice ! i
            + E_slice ! nat ((int i - 1) mod int (length E_slice))) / of_real (dx ^ 2))
       + \<i> * of_real (k0 / (2 * n0)) * of_real (n_r2_slice ! i - n0 ^ 2) * E_slice ! i
       - of_real (sigma_x ! i) * E_slice ! i) [0..<length E_slice])"
  using assms by (rule compute_dE_dz_same)

theorem compute_dE_dz_pointwise_witness:
  "length [1, 2, 3 :: real] = length [1, \<i>, 2] \<and> length [0, 1, 0 :: real] = length [1, \<i>, 2]
   \<and> (1 :: real) \<noteq> 0
   \<and> compute_dE_dz [1, \<i>, 2] [1, 2, 3] 1 1 [0, 1, 0] 1
       = Inr [- 1 / 2, 1 / 2 + \<i> / 2, - 1 / 2 + \<i> / 2]"
proof -
  have h1: "length [1, 2, 3 :: real] = length [1, \<i>, 2]" by simp
  have h2: "length [0, 1, 0 :: real] = length [1, \<i>, 2]" by simp
  have h3: "(1 :: real) \<noteq> 0" by simp
  have u: "[0..<3] = [0, 1, 2]" by (simp add: upt_conv_Cons)
  have "compute_dE_dz [1, \<i>, 2] [1, 2, 3] 1 1 [0, 1, 0] 1
       = Inr [- 1 / 2, 1 / 2 + \<i> / 2, - 1 / 2 + \<i> / 2]"
    using compute_dE_dz_pointwise[OF h1 h2 h3 h3, of 1]
    by (simp add: u algebra_simps)
  then show ?thesis by simp
qed

text \<open>
  Claim C3. When \<open>run_bpm\<close> returns normally on a field array with \<open>Nx\<close> rows, every
  column \<open>zi\<close> with \<open>1 \<le> zi < Nz\<close> of the result equals, entry by entry,
  \<open>E_prev + (k1 + 2 k2 + 2 k3 + k4) / 6\<close> with \<open>E_prev\<close> the column \<open>zi - 1\<close> of the result,
  \<open>k1 = dz f(E_prev)\<close>, \<open>k2 = dz f(E_prev + k1 / 2)\<close>, \<open>k3 = dz f(E_prev + k2 / 2)\<close>,
  \<open>k4 = dz f(E_prev + k3)\<close>, where each of the four evaluations of \<open>f = compute_dE_dz\<close>
  takes the index-map column \<open>zi - 1\<close>. Below \<open>f1, \<dots>, f4\<close> are the four values of \<open>f\<close>.
\<close>

theorem run_bpm_rk4_update:
  assumes "rect Nx E"
    and "raised (run_bpm E n_r2 x z dx dz n0 sigma_x wavelength) = None"
    and "1 \<le> zi" and "zi < length z"
  shows "\<exists>f1 f2 f3 f4.
      (let E' = field (run_bpm E n_r2 x z dx dz n0 sigma_x wavelength);
           E_prev = E' ! (zi - 1); n_prev = n_r2 ! (zi - 1); k0 = 2 * pi / wavelength
       in compute_dE_dz E_prev n_prev dx n0 sigma_x k0 = Inr f1
        \<and> compute_dE_dz (map2 (+) E_prev (divide_by (scale dz f1) 2)) n_prev dx n0 sigma_x k0 = Inr f2
        \<and> compute_dE_dz (map2 (+) E_prev (divide_by (scale dz f2) 2)) n_prev dx n0 sigma_x k0 = Inr f3
        \<and> compute_dE_dz (map2 (+) E_prev (scale dz f3)) n_prev dx n0 sigma_x k0 = Inr f4
        \<and> length (E' ! zi) = Nx \<and> length E_prev = Nx
        \<and> (\<forall>i < Nx. E' ! zi ! i =
              E_prev ! i + (complex_of_real dz * f1 ! i + 2 * (complex_of_real dz * f2 ! i)
                 + 2 * (complex_of_real dz * f3 ! i) + complex_of_real dz * f4 ! i) / 6))"
proof -
  let ?s = "run_bpm E n_r2 x z dx dz n0 sigma_x wavelength"
  from run_bpm_inv[OF assms(1), where z = z and ?n_r2.0 = n_r2 and x = x and dx = dx
      and dz = dz and ?n0.0 = n0 and sg = sigma_x and wl = wavelength]
  obtain c where c: "[1..<c] = [1..<length z]" and r: "rect Nx (field ?s)"
    and nc: "ncols (field ?s) = ncols E"
    and rk: "\<forall>zi. 1 \<le> zi \<and> zi < c \<longrightarrow> zi < ncols E \<and> zi - 1 < ncols n_r2 \<and>
           rk4_column (field ?s ! (zi - 1)) (n_r2 ! (zi - 1)) dx dz n0 sigma_x (2 * pi / wavelength)
             = Inr (field ?s ! zi)"
    using assms(2) by auto
  have "zi \<in> set [1..<length z]" using assms(3,4) by simp
  then have "zi \<in> set [1..<c]" using c by simp
  then have zc: "zi < c" by simp
  let ?P = "field ?s ! (zi - 1)" and ?n = "n_r2 ! (zi - 1)" and ?k0 = "2 * pi / wavelength"
  from rk assms(3) zc have zn: "zi < ncols E"
    and v: "rk4_column ?P ?n dx dz n0 sigma_x ?k0 = Inr (field ?s ! zi)" by auto
  have l1: "length (field ?s ! zi) = Nx" using rect_nth[OF r] zn nc by simp
  have l0: "length ?P = Nx" using rect_nth[OF r, of "zi - 1"] zn nc by simp
  from rk4_column_Inr[OF v] l1 l0 obtain d1 d2 d3 d4 where
    d: "compute_dE_dz ?P ?n dx n0 sigma_x ?k0 = Inr d1"
      "compute_dE_dz (map2 (+) ?P (divide_by (scale dz d1) 2)) ?n dx n0 sigma_x ?k0 = Inr d2"
      "compute_dE_dz (map2 (+) ?P (divide_by (scale dz d2) 2)) ?n dx n0 sigma_x ?k0 = Inr d3"
      "compute_dE_dz (map2 (+) ?P (scale dz d3)) ?n dx n0 sigma_x ?k0 = Inr d4"
    and ld: "length d1 = Nx" "length d2 = Nx" "length d3 = Nx" "length d4 = Nx"
    and e: "field ?s ! zi = rk4_next ?P dz d1 d2 d3 d4"
    by auto
  have "\<forall>i < Nx. field ?s ! zi ! i =
      ?P ! i + (dz * d1 ! i + 2 * (dz * d2 ! i) + 2 * (dz * d3 ! i) + dz * d4 ! i) / 6"
    using ld l0 by (simp add: e rk4_next_def scale_def divide_by_def)
  then show ?thesis using d l1 l0 unfolding Let_def by blast
qed

theorem run_bpm_rk4_update_witness:
  "rect 1 [[1], [0 :: complex]]
   \<and> raised (run_bpm [[1], [0]] [[1], [1]] [0, 1, 2] [0, 1] 1 1 1 [0] 1) = None
   \<and> (1::nat) \<le> 1 \<and> 1 < length [0, 1 :: real]
   \<and> (\<exists>f1 f2 f3 f4.
      (let E' = field (run_bpm [[1], [0]] [[1], [1]] [0, 1, 2] [0, 1] 1 1 1 [0] 1);
           E_prev = E' ! (1 - 1); n_prev = [[1], [1]] ! (1 - 1); k0 = 2 * pi / 1
       in compute_dE_dz E_prev n_prev 1 1 [0] k0 = Inr f1
        \<and> compute_dE_dz (map2 (+) E_prev (divide_by (scale 1 f1) 2)) n_prev 1 1 [0] k0 = Inr f2
        \<and> compute_dE_dz (map2 (+) E_prev (divide_by (scale 1 f2) 2)) n_prev 1 1 [0] k0 = Inr f3
        \<and> compute_dE_dz (map2 (+) E_prev (scale 1 f3)) n_prev 1 1 [0] k0 = Inr f4
        \<and> length (E' ! 1) = 1 \<and> length E_prev = 1
        \<and> (\<forall>i < 1. E' ! 1 ! i =
              E_prev ! i + (complex_of_real 1 * f1 ! i + 2 * (complex_of_real 1 * f2 ! i)
                 + 2 * (complex_of_real 1 * f3 ! i) + complex_of_real 1 * f4 ! i) / 6)))"
proof -
  have h1: "rect 1 [[1], [0 :: complex]]" by (simp add: rect_def)
  have h2: "raised (run_bpm [[1], [0]] [[1], [1]] [0, 1, 2] [0, 1] 1 1 1 [0] 1) = None"
    by (simp add: run_bpm_example_ok)
  have h3: "(1::nat) \<le> 1" by simp
  have h4: "1 < length [0, 1 :: real]" by simp
  show ?thesis
    by (intro conjI h1 h2 h3 h4 run_bpm_rk4_update[OF h1 h2 h3 h4])
qed

text \<open>
  Claim C8. For every call of \<open>run_bpm\<close> on a field array with \<open>Nx\<close> rows, whether it
  returns or raises: column 0 of the array afterwards is the caller's column 0 and the
  shape is unchanged; the columns assigned are \<open>1, 2, \<dots>\<close> in strictly increasing order,
  all of them below \<open>Nz\<close>, and exactly \<open>1, \<dots>, Nz - 1\<close> on a normal return; every column
  that was not assigned is unchanged; and every assigned column \<open>zi\<close> is the value that
  the four stages compute from column \<open>zi - 1\<close> of the array (and column \<open>zi - 1\<close> of the
  index map) alone.
\<close>

theorem run_bpm_frame:
  assumes "rect Nx E"
  shows "take 1 (field (run_bpm E n_r2 x z dx dz n0 sigma_x wavelength)) = take 1 E
     \<and> ncols (field (run_bpm E n_r2 x z dx dz n0 sigma_x wavelength)) = ncols E
     \<and> rect Nx (field (run_bpm E n_r2 x z dx dz n0 sigma_x wavelength))
     \<and> written (run_bpm E n_r2 x z dx dz n0 sigma_x wavelength)
         = [1..<Suc (length (written (run_bpm E n_r2 x z dx dz n0 sigma_x wavelength)))]
     \<and> set (written (run_bpm E n_r2 x z dx dz n0 sigma_x wavelength)) \<subseteq> {1..<length z}
     \<and> (raised (run_bpm E n_r2 x z dx dz n0 sigma_x wavelength) = None \<longrightarrow>
          written (run_bpm E n_r2 x z dx dz n0 sigma_x wavelength) = [1..<length z])
     \<and> (\<forall>j. j \<notin> set (written (run_bpm E n_r2 x z dx dz n0 sigma_x wavelength)) \<longrightarrow>
          field (run_bpm E n_r2 x z dx dz n0 sigma_x wavelength) ! j = E ! j)
     \<and> (\<forall>zi \<in> set (written (run_bpm E n_r2 x z dx dz n0 sigma_x wavelength)).
          rk4_column (field (run_bpm E n_r2 x z dx dz n0 sigma_x wavelength) ! (zi - 1))
             (n_r2 ! (zi - 1)) dx dz n0 sigma_x (2 * pi / wavelength)
            = Inr (field (run_bpm E n_r2 x z dx dz n0 sigma_x wavelength) ! zi))"
proof -
  let ?s = "run_bpm E n_r2 x z dx dz n0 sigma_x wavelength"
  from run_bpm_inv[OF assms, where z = z and ?n_r2.0 = n_r2 and x = x and dx = dx
      and dz = dz and ?n0.0 = n0 and sg = sigma_x and wl = wavelength]
  obtain c where c1: "1 \<le> c" and c2: "c \<le> length z \<or> c = 1"
    and w: "written ?s = [1..<c]"
    and ok: "raised ?s = None \<longrightarrow> [1..<c] = [1..<length z]"
    and r: "rect Nx (field ?s)" and nc: "ncols (field ?s) = ncols E"
    and fr: "\<forall>j. j < 1 \<or> c \<le> j \<longrightarrow> field ?s ! j = E ! j"
    and rk: "\<forall>zi. 1 \<le> zi \<and> zi < c \<longrightarrow> zi < ncols E \<and> zi - 1 < ncols n_r2 \<and>
           rk4_column (field ?s ! (zi - 1)) (n_r2 ! (zi - 1)) dx dz n0 sigma_x (2 * pi / wavelength)
             = Inr (field ?s ! zi)"
    by (elim exE conjE) (rule that; assumption)
  have g1: "take 1 (field ?s) = take 1 E"
  proof (cases E)
    case Nil
    then show ?thesis using nc by (simp add: ncols_def)
  next
    case (Cons a as)
    then obtain b bs where f: "field ?s = b # bs" using nc by (cases "field ?s") (auto simp: ncols_def)
    have "field ?s ! 0 = E ! 0" using fr by simp
    then show ?thesis using Cons f by simp
  qed
  have g4: "written ?s = [1..<Suc (length (written ?s))]" using w c1 by simp
  have g5: "set (written ?s) \<subseteq> {1..<length z}" using w c2 by auto
  have g6: "raised ?s = None \<longrightarrow> written ?s = [1..<length z]" using ok w by simp
  have g7: "\<forall>j. j \<notin> set (written ?s) \<longrightarrow> field ?s ! j = E ! j"
  proof (intro allI impI)
    fix j assume "j \<notin> set (written ?s)"
    then have "j < 1 \<or> c \<le> j" using w by auto
    then show "field ?s ! j = E ! j" using fr by blast
  qed
  have g8: "\<forall>zi \<in> set (written ?s).
          rk4_column (field ?s ! (zi - 1)) (n_r2 ! (zi - 1)) dx dz n0 sigma_x (2 * pi / wavelength)
            = Inr (field ?s ! zi)"
    using rk w by simp
  show ?thesis using g1 nc r g4 g5 g6 g7 g8 by blast
qed

theorem run_bpm_frame_witness:
  "rect 1 [[1], [0 :: complex]]
   \<and> take 1 (field (run_bpm [[1], [0]] [[1], [1]] [0, 1, 2] [0, 1] 1 1 1 [0] 1)) = [[1]]
   \<and> written (run_bpm [[1], [0]] [[1], [1]] [0, 1, 2] [0, 1] 1 1 1 [0] 1) = [1]
   \<and> rk4_column [1] [1] 1 1 1 [0] (2 * pi / 1) = Inr [1]"
proof -
  have h1: "rect 1 [[1], [0 :: complex]]" by (simp add: rect_def)
  have e: "field (run_bpm [[1], [0]] [[1], [1]] [0, 1, 2] [0, 1] 1 1 1 [0] 1) = [[1], [1]]"
     "written (run_bpm [[1], [0]] [[1], [1]] [0, 1, 2] [0, 1] 1 1 1 [0] 1) = [1]"
    by (simp_all add: run_bpm_example_ok)
  from run_bpm_frame[OF h1, of "[[1], [1]]" "[0, 1, 2]" "[0, 1]" 1 1 1 "[0]" 1]
  show ?thesis using h1 unfolding e by simp
qed

text \<open>
  Claim C1, as stated: every call in which the shapes disagree fails with a
  DimensionMismatch error before any marching step, with no column written. The code
  has no such check. In the first call below the length of \<open>x\<close> is 3 while the arrays
  have one row, and the call returns normally with column 1 written; in the second
  \<open>z\<close> has three entries while the arrays have two columns, and the call raises
  \<open>IndexError\<close> only after column 1 has been written.
\<close>

theorem run_bpm_shape_check_counterexample:
  "rect 1 [[1], [0 :: complex]] \<and> rect 1 [[1], [1 :: real]]
   \<and> length [0, 1, 2 :: real] \<noteq> 1
   \<and> raised (run_bpm [[1], [0]] [[1], [1]] [0, 1, 2] [0, 1] 1 1 1 [0] 1) = None
   \<and> written (run_bpm [[1], [0]] [[1], [1]] [0, 1, 2] [0, 1] 1 1 1 [0] 1) = [1]
   \<and> ncols [[1], [0 :: complex]] \<noteq> length [0, 1, 2 :: real]
   \<and> raised (run_bpm [[1], [0]] [[1], [1]] [0] [0, 1, 2] 1 1 1 [0] 1) = Some IndexError
   \<and> written (run_bpm [[1], [0]] [[1], [1]] [0] [0, 1, 2] 1 1 1 [0] 1) = [1]"
  by (simp add: run_bpm_example_ok run_bpm_example_late rect_def ncols_def)

text \<open>
  Claim C1, amended. \<open>run_bpm\<close> checks no shape before it marches, and \<open>x\<close> is never
  read. For a field array of \<open>Nx\<close> rows: whenever the index map has \<open>Nx\<close> rows,
  \<open>sigma_x\<close> has length \<open>Nx\<close>, the field has at least \<open>len(z)\<close> and the index map at least
  \<open>len(z) - 1\<close> columns, and \<open>n0\<close> and the wavelength are not zero, the call returns
  normally, for every \<open>x\<close>, having assigned the columns \<open>1, \<dots>, len(z) - 1\<close>. Any exception
  other than the one of the division by a zero wavelength is raised by a marching step
  \<open>c\<close> that fails, after the steps \<open>1, \<dots>, c - 1\<close> have assigned their columns.
\<close>

theorem run_bpm_no_shape_check:
  assumes "rect Nx E"
  shows "(rect Nx n_r2 \<and> length sigma_x = Nx \<and> length z \<le> ncols E
            \<and> length z - 1 \<le> ncols n_r2 \<and> n0 \<noteq> 0 \<and> wavelength \<noteq> 0 \<longrightarrow>
          raised (run_bpm E n_r2 x z dx dz n0 sigma_x wavelength) = None
          \<and> written (run_bpm E n_r2 x z dx dz n0 sigma_x wavelength) = [1..<length z])
     \<and> (\<forall>e. raised (run_bpm E n_r2 x z dx dz n0 sigma_x wavelength) = Some e
              \<and> wavelength \<noteq> 0 \<longrightarrow>
          (\<exists>c. 1 \<le> c \<and> c < length z
             \<and> written (run_bpm E n_r2 x z dx dz n0 sigma_x wavelength) = [1..<c]
             \<and> bpm_step (field (run_bpm E n_r2 x z dx dz n0 sigma_x wavelength))
                  n_r2 dx dz n0 sigma_x (2 * pi / wavelength) c = Inl e))"
proof (intro conjI impI allI)
  let ?s = "run_bpm E n_r2 x z dx dz n0 sigma_x wavelength"
  note inv = run_bpm_inv[OF assms, where z = z and ?n_r2.0 = n_r2 and x = x and dx = dx
      and dz = dz and ?n0.0 = n0 and sg = sigma_x and wl = wavelength]
  {
    assume h: "rect Nx n_r2 \<and> length sigma_x = Nx \<and> length z \<le> ncols E
            \<and> length z - 1 \<le> ncols n_r2 \<and> n0 \<noteq> 0 \<and> wavelength \<noteq> 0"
    then show ok: "raised ?s = None"
      using run_bpm_succeeds[OF assms, of n_r2 sigma_x z n0 wavelength x dx dz] by simp
    from inv ok show "written ?s = [1..<length z]" by auto
  }
  {
    fix e assume "raised ?s = Some e \<and> wavelength \<noteq> 0"
    then show "\<exists>c. 1 \<le> c \<and> c < length z \<and> written ?s = [1..<c]
             \<and> bpm_step (field ?s) n_r2 dx dz n0 sigma_x (2 * pi / wavelength) c = Inl e"
      using inv by auto
  }
qed

theorem run_bpm_no_shape_check_witness:
  "rect 1 [[1], [0 :: complex]]
   \<and> raised (run_bpm [[1], [0]] [[1], [1]] [0, 1, 2] [0, 1] 1 1 1 [0] 1) = None
   \<and> written (run_bpm [[1], [0]] [[1], [1]] [0, 1, 2] [0, 1] 1 1 1 [0] 1) = [1..<length [0, 1 :: real]]
   \<and> raised (run_bpm [[1], [0]] [[1], [1]] [0] [0, 1, 2] 1 1 1 [0] 1) = Some IndexError
   \<and> (\<exists>c. 1 \<le> c \<and> c < length [0, 1, 2 :: real]
         \<and> written (run_bpm [[1], [0]] [[1], [1]] [0] [0, 1, 2] 1 1 1 [0] 1) = [1..<c]
         \<and> bpm_step (field (run_bpm [[1], [0]] [[1], [1]] [0] [0, 1, 2] 1 1 1 [0] 1))
              [[1], [1]] 1 1 1 [0] (2 * pi / 1) c = Inl IndexError)"
proof -
  have h1: "rect 1 [[1], [0 :: complex]]" by (simp add: rect_def)
  have h2: "rect 1 [[1], [1 :: real]] \<and> length [0 :: real] = 1
      \<and> length [0, 1 :: real] \<le> ncols [[1], [0 :: complex]]
      \<and> length [0, 1 :: real] - 1 \<le> ncols [[1], [1 :: real]] \<and> (1 :: real) \<noteq> 0 \<and> (1 :: real) \<noteq> 0"
    by (simp add: rect_def ncols_def)
  have h3: "raised (run_bpm [[1], [0]] [[1], [1]] [0] [0, 1, 2] 1 1 1 [0] 1) = Some IndexError
      \<and> (1 :: real) \<noteq> 0"
    by (simp add: run_bpm_example_late)
  from run_bpm_no_shape_check[OF h1, of "[[1], [1]]" "[0]" "[0, 1]" 1 1 "[0, 1, 2]" 1 1] h2
  have a: "raised (run_bpm [[1], [0]] [[1], [1]] [0, 1, 2] [0, 1] 1 1 1 [0] 1) = None
   \<and> written (run_bpm [[1], [0]] [[1], [1]] [0, 1, 2] [0, 1] 1 1 1 [0] 1) = [1..<length [0, 1 :: real]]"
    by blast
  from run_bpm_no_shape_check[OF h1, of "[[1], [1]]" "[0]" "[0, 1, 2]" 1 1 "[0]" 1 1] h3
  have b: "\<exists>c. 1 \<le> c \<and> c < length [0, 1, 2 :: real]
         \<and> written (run_bpm [[1], [0]] [[1], [1]] [0] [0, 1, 2] 1 1 1 [0] 1) = [1..<c]
         \<and> bpm_step (field (run_bpm [[1], [0]] [[1], [1]] [0] [0, 1, 2] 1 1 1 [0] 1))
              [[1], [1]] 1 1 1 [0] (2 * pi / 1) c = Inl IndexError"
    by blast
  show ?thesis using h1 a b h3 by blast
qed

section \<open>The mode solver: parameter checks\<close>

text \<open>
  Claim C6. Whenever a precondition of \<open>slab_mode_source\<close> is violated (\<open>x\<close> not
  one-dimensional, \<open>w \<le> 0\<close>, \<open>n_WG \<le> n0\<close>, \<open>n0 \<le> 0\<close>, \<open>wavelength \<le> 0\<close>, or \<open>ind_m\<close> not
  a non-negative \<^verbatim>\<open>int\<close>), the call fails with a \<open>ValueError\<close>, whatever the scan would
  find; each condition has its own check with its own message, and the message is that
  of the first violated condition in the order of the checks.
\<close>

theorem slab_mode_source_invalid_parameter:
  assumes "ndim x \<noteq> 1 \<or> w \<le> 0 \<or> n_WG \<le> n0 \<or> n0 \<le> 0 \<or> wavelength \<le> 0
             \<or> \<not> isinstance_int ind_m \<or> int_value ind_m < 0"
  shows "slab_mode_source x w n_WG n0 wavelength ind_m x0 =
     Inl (ValueError
       (if ndim x \<noteq> 1 then ''x must be 1D array''
        else if w \<le> 0 then ''Waveguide width w must be positive''
        else if n_WG \<le> n0 then ''Core index n_WG must be greater than cladding index n0''
        else if n0 \<le> 0 then ''Cladding index n0 must be positive''
        else if wavelength \<le> 0 then ''Wavelength must be positive''
        else ''Mode index ind_m must be non-negative integer''))"
  using assms by (auto simp: slab_mode_source_def)

theorem slab_mode_source_invalid_parameter_witness:
  "slab_mode_source (Mat [[0]]) 1 2 1 1 (PyInt 0) 0 = Inl (ValueError ''x must be 1D array'')
   \<and> slab_mode_source (Vec [0]) 0 2 1 1 (PyInt 0) 0
        = Inl (ValueError ''Waveguide width w must be positive'')
   \<and> slab_mode_source (Vec [0]) 1 1 1 1 (PyInt 0) 0
        = Inl (ValueError ''Core index n_WG must be greater than cladding index n0'')
   \<and> slab_mode_source (Vec [0]) 1 0 (- 1) 1 (PyInt 0) 0
        = Inl (ValueError ''Cladding index n0 must be positive'')
   \<and> slab_mode_source (Vec [0]) 1 2 1 0 (PyInt 0) 0
        = Inl (ValueError ''Wavelength must be positive'')
   \<and> slab_mode_source (Vec [0]) 1 2 1 1 (PyInt (- 1)) 0
        = Inl (ValueError ''Mode index ind_m must be non-negative integer'')"
proof -
  have h1: "ndim (Mat [[0]]) \<noteq> 1 \<or> (1::real) \<le> 0 \<or> (2::real) \<le> 1 \<or> (1::real) \<le> 0 \<or> (1::real) \<le> 0
      \<or> \<not> isinstance_int (PyInt 0) \<or> int_value (PyInt 0) < 0" by simp
  have h2: "ndim (Vec [0]) \<noteq> 1 \<or> (0::real) \<le> 0 \<or> (2::real) \<le> 1 \<or> (1::real) \<le> 0 \<or> (1::real) \<le> 0
      \<or> \<not> isinstance_int (PyInt 0) \<or> int_value (PyInt 0) < 0" by simp
  have h3: "ndim (Vec [0]) \<noteq> 1 \<or> (1::real) \<le> 0 \<or> (1::real) \<le> 1 \<or> (1::real) \<le> 0 \<or> (1::real) \<le> 0
      \<or> \<not> isinstance_int (PyInt 0) \<or> int_value (PyInt 0) < 0" by simp
  have h4: "ndim (Vec [0]) \<noteq> 1 \<or> (1::real) \<le> 0 \<or> (0::real) \<le> - 1 \<or> (- 1::real) \<le> 0 \<or> (1::real) \<le> 0
      \<or> \<not> isinstance_int (PyInt 0) \<or> int_value (PyInt 0) < 0" by simp
  have h5: "ndim (Vec [0]) \<noteq> 1 \<or> (1::real) \<le> 0 \<or> (2::real) \<le> 1 \<or> (1::real) \<le> 0 \<or> (0::real) \<le> 0
      \<or> \<not> isinstance_int (PyInt 0) \<or> int_value (PyInt 0) < 0" by simp
  have h6: "ndim (Vec [0]) \<noteq> 1 \<or> (1::real) \<le> 0 \<or> (2::real) \<le> 1 \<or> (1::real) \<le> 0 \<or> (1::real) \<le> 0
      \<or> \<not> isinstance_int (PyInt (- 1)) \<or> int_value (PyInt (- 1)) < 0" by simp
  show ?thesis
    using slab_mode_source_invalid_parameter[OF h1, of 0]
      slab_mode_source_invalid_parameter[OF h2, of 0]
      slab_mode_source_invalid_parameter[OF h3, of 0]
      slab_mode_source_invalid_parameter[OF h4, of 0]
      slab_mode_source_invalid_parameter[OF h5, of 0]
      slab_mode_source_invalid_parameter[OF h6, of 0]
    by simp
qed

text \<open>
  Claim C10. \<open>ind_m\<close> is accepted only when it is an instance of Python's \<^verbatim>\<open>int\<close>: for
  every other value, a whole-valued float or a numpy integer included, the call gives
  exactly the result it gives for the index \<open>-1\<close>, which is a \<open>ValueError\<close>; with the other
  arguments valid it is the error of the mode index check.
\<close>

theorem slab_mode_source_rejects_non_int:
  assumes "\<not> isinstance_int ind_m"
  shows "slab_mode_source x w n_WG n0 wavelength ind_m x0
           = slab_mode_source x w n_WG n0 wavelength (PyInt (- 1)) x0
     \<and> (\<exists>msg. slab_mode_source x w n_WG n0 wavelength ind_m x0 = Inl (ValueError msg))
     \<and> (ndim x = 1 \<and> 0 < w \<and> n0 < n_WG \<and> 0 < n0 \<and> 0 < wavelength \<longrightarrow>
          slab_mode_source x w n_WG n0 wavelength ind_m x0
            = Inl (ValueError ''Mode index ind_m must be non-negative integer''))"
  using assms by (auto simp: slab_mode_source_def)

theorem slab_mode_source_rejects_non_int_witness:
  "\<not> isinstance_int (PyFloat 2) \<and> \<not> isinstance_int (NpInt 2)
   \<and> (ndim (Vec [0]) = 1 \<and> (0::real) < 1 \<and> (1::real) < 2 \<and> (0::real) < 1 \<and> (0::real) < 1)
   \<and> slab_mode_source (Vec [0]) 1 2 1 1 (PyFloat 2) 0
        = Inl (ValueError ''Mode index ind_m must be non-negative integer'')
   \<and> slab_mode_source (Vec [0]) 1 2 1 1 (NpInt 2) 0
        = slab_mode_source (Vec [0]) 1 2 1 1 (PyInt (- 1)) 0"
proof -
  have h1: "\<not> isinstance_int (PyFloat 2)" by simp
  have h2: "\<not> isinstance_int (NpInt 2)" by simp
  have h3: "ndim (Vec [0]) = 1 \<and> (0::real) < 1 \<and> (1::real) < 2 \<and> (0::real) < 1 \<and> (0::real) < 1"
    by simp
  show ?thesis
    using h1 h2 h3 slab_mode_source_rejects_non_int[OF h1, of "Vec [0]" 1 2 1 1 0]
      slab_mode_source_rejects_non_int[OF h2, of "Vec [0]" 1 2 1 1 0]
    by blast
qed

section \<open>The mode solver: scan, brackets and bisection\<close>

lemma length_linspace [simp]: "length (linspace a b num) = num"
  by (auto simp: linspace_def Let_def)

lemma nth_linspace:
  assumes "2 \<le> num" "i < num"
  shows "linspace a b num ! i = a + real i * ((b - a) / real (num - 1))"
proof (cases "i < num - 1")
  case True
  then show ?thesis using assms by (simp add: linspace_def Let_def nth_append)
next
  case False
  then have i: "i = num - 1" using assms by simp
  have "linspace a b num ! i = b"
    using assms by (simp add: linspace_def Let_def nth_append i)
  moreover have "a + real i * ((b - a) / real (num - 1)) = b"
    using assms by (simp add: i field_simps)
  ultimately show ?thesis by simp
qed

lemma set_intervals:
  "set (intervals vals scan N) =
     {(scan ! i, scan ! (i + 1)) | i. i < N - 1 \<and> sign_change (vals ! i) (vals ! (i + 1))}"
  by (auto simp: intervals_def)

lemma set_roots:
  "set (roots f valid ivs) = {refine_root f l r | l r. (l, r) \<in> set ivs \<and> valid (refine_root f l r)}"
  by (auto simp: roots_def)

lemma set_modes_sorted:
  "set (modes_sorted w n_WG n0 k0) =
     Pair Even ` set (even_roots w n_WG n0 k0) \<union> Pair Odd ` set (odd_roots w n_WG n0 k0)"
  by (simp add: modes_sorted_def Let_def)

lemma length_modes_sorted:
  "length (modes_sorted w n_WG n0 k0) =
     length (even_roots w n_WG n0 k0) + length (odd_roots w n_WG n0 k0)"
  by (simp add: modes_sorted_def Let_def)


lemma refine_loop_cases:
  "(\<exists>v. f ((l + r) / 2) = Some v \<and> \<bar>v\<bar> < 1 / 10 ^ 9
        \<and> refine_loop (Suc n) f l r b0 = (l + r) / 2)
   \<or> refine_loop (Suc n) f l r b0 = refine_loop n f l ((l + r) / 2) ((l + r) / 2)
   \<or> refine_loop (Suc n) f l r b0 = refine_loop n f ((l + r) / 2) r ((l + r) / 2)"
  by (simp add: Let_def split: option.split)





lemma refine_loop_bounds:
  assumes "l < r"
  shows "l < refine_loop (Suc n) f l r b0 \<and> refine_loop (Suc n) f l r b0 < r"
  using assms
proof (induction n arbitrary: l r b0)
  case 0
  have "refine_loop (Suc 0) f l r b0 = (l + r) / 2"
    using refine_loop_cases[of f l r 0 b0] by auto
  then show ?case using 0 by simp
next
  case (Suc n)
  let ?m = "(l + r) / 2"
  have lm: "l < ?m" "?m < r" using Suc.prems by auto
  from refine_loop_cases[of f l r "Suc n" b0]
  consider (stop) "refine_loop (Suc (Suc n)) f l r b0 = ?m"
    | (left) "refine_loop (Suc (Suc n)) f l r b0 = refine_loop (Suc n) f l ?m ?m"
    | (right) "refine_loop (Suc (Suc n)) f l r b0 = refine_loop (Suc n) f ?m r ?m"
    by blast
  then show ?case
  proof cases
    case stop
    then show ?thesis using lm by simp
  next
    case left
    from Suc.IH[OF lm(1), of ?m] show ?thesis unfolding left using lm by simp
  next
    case right
    from Suc.IH[OF lm(2), of ?m] show ?thesis unfolding right using lm by simp
  qed
qed

lemma refine_root_bounds:
  "l < r \<Longrightarrow> l < refine_root f l r \<and> refine_root f l r < r"
  using refine_loop_bounds[of l r 49 f 0] by (simp add: refine_root_def eval_nat_numeral del: refine_loop.simps)


lemma nth_beta_scan:
  "i < 2000 \<Longrightarrow> beta_scan n_WG n0 k0 ! i = n0 * k0 + real i * ((n_WG * k0 - n0 * k0) / 1999)"
  using nth_linspace[of 2000 i "n0 * k0" "n_WG * k0"] by (simp add: beta_scan_def)

lemma beta_scan_mono:
  assumes "n0 < n_WG" "0 < k0" "i < 1999"
  shows "beta_scan n_WG n0 k0 ! i < beta_scan n_WG n0 k0 ! (i + 1)"
proof -
  define d where "d = (n_WG * k0 - n0 * k0) / 1999"
  have d: "0 < d" using assms by (simp add: d_def field_simps)
  have "beta_scan n_WG n0 k0 ! i = n0 * k0 + real i * d"
    and "beta_scan n_WG n0 k0 ! (i + 1) = n0 * k0 + real (i + 1) * d"
    using assms(3) by (simp_all add: nth_beta_scan d_def)
  then show ?thesis using d by (simp add: algebra_simps)
qed

lemma set_intervals_map:
  assumes "length scan = N"
  shows "set (intervals (map f scan) scan N) =
     {(scan ! i, scan ! (i + 1)) | i. i < N - 1 \<and> sign_change (f (scan ! i)) (f (scan ! (i + 1)))}"
proof -
  have "\<And>i. i < N - 1 \<Longrightarrow> map f scan ! i = f (scan ! i) \<and> map f scan ! (i + 1) = f (scan ! (i + 1))"
    using assms by auto
  then show ?thesis unfolding set_intervals by auto
qed

lemma roots_of_scan_iff:
  assumes "length scan = 2000"
  shows "b \<in> set (roots f valid (intervals (map f scan) scan 2000)) \<longleftrightarrow>
     (\<exists>i < 1999. sign_change (f (scan ! i)) (f (scan ! (i + 1)))
        \<and> b = refine_root f (scan ! i) (scan ! (i + 1)) \<and> valid b)"
  unfolding set_roots set_intervals_map[OF assms] by auto

lemma even_roots_iff:
  "b \<in> set (even_roots w n_WG n0 k0) \<longleftrightarrow>
     (\<exists>i < 1999.
        sign_change (f_even w n_WG n0 k0 (beta_scan n_WG n0 k0 ! i))
                    (f_even w n_WG n0 k0 (beta_scan n_WG n0 k0 ! (i + 1)))
        \<and> b = refine_root (f_even w n_WG n0 k0) (beta_scan n_WG n0 k0 ! i) (beta_scan n_WG n0 k0 ! (i + 1))
        \<and> valid_even w n_WG k0 b)"
  unfolding even_roots_def Let_def beta_scan_def[symmetric]
  by (rule roots_of_scan_iff) (simp add: beta_scan_def)

lemma odd_roots_iff:
  "b \<in> set (odd_roots w n_WG n0 k0) \<longleftrightarrow>
     (\<exists>i < 1999.
        sign_change (f_odd w n_WG n0 k0 (beta_scan n_WG n0 k0 ! i))
                    (f_odd w n_WG n0 k0 (beta_scan n_WG n0 k0 ! (i + 1)))
        \<and> b = refine_root (f_odd w n_WG n0 k0) (beta_scan n_WG n0 k0 ! i) (beta_scan n_WG n0 k0 ! (i + 1))
        \<and> valid_odd w n_WG k0 b)"
  unfolding odd_roots_def Let_def beta_scan_def[symmetric]
  by (rule roots_of_scan_iff) (simp add: beta_scan_def)


section \<open>The mode solver: normalisation and the returned field\<close>

lemma sum_list_divide_const:
  "sum_list (map (\<lambda>v. v / c) (L :: real list)) = sum_list L / c"
  by (induction L) (simp_all add: add_divide_distrib)

lemma trapezoid_scale:
  "trapezoid (map (\<lambda>y. y / c) ys) x = trapezoid ys x / c"
proof -
  let ?g = "\<lambda>y. y / c"
  have "map2 (\<lambda>d s. d * s / 2) (np_diff x) (map2 (+) (tl (map ?g ys)) (butlast (map ?g ys)))
      = map (\<lambda>v. v / c) (map2 (\<lambda>d s. d * s / 2) (np_diff x) (map2 (+) (tl ys) (butlast ys)))"
  proof (rule nth_equalityI)
    show "length (map2 (\<lambda>d s. d * s / 2) (np_diff x) (map2 (+) (tl (map ?g ys)) (butlast (map ?g ys))))
      = length (map (\<lambda>v. v / c) (map2 (\<lambda>d s. d * s / 2) (np_diff x) (map2 (+) (tl ys) (butlast ys))))"
      by simp
  next
    fix i assume "i < length (map2 (\<lambda>d s. d * s / 2) (np_diff x) (map2 (+) (tl (map ?g ys)) (butlast (map ?g ys))))"
    then have i: "i < length (np_diff x)" "Suc i < length ys" "i < length ys" by auto
    then show "map2 (\<lambda>d s. d * s / 2) (np_diff x) (map2 (+) (tl (map ?g ys)) (butlast (map ?g ys))) ! i
       = map (\<lambda>v. v / c) (map2 (\<lambda>d s. d * s / 2) (np_diff x) (map2 (+) (tl ys) (butlast ys))) ! i"
      by (simp add: nth_tl nth_butlast add_divide_distrib ring_distribs)
  qed
  then show ?thesis unfolding trapezoid_def by (simp only: sum_list_divide_const)
qed

lemma power_integral_normalize:
  assumes "0 < power_integral R x"
  shows "power_integral (normalize R x) x = 1"
proof -
  let ?I = "power_integral R x"
  have "map (\<lambda>e. (cmod e) ^ 2) (normalize R x) = map (\<lambda>y. y / ?I) (map (\<lambda>e. (cmod e) ^ 2) R)"
    using assms by (simp add: normalize_def Let_def norm_divide power_divide)
  then have "power_integral (normalize R x) x = ?I / ?I"
    unfolding power_integral_def by (simp only: trapezoid_scale)
  then show ?thesis using assms by simp
qed

lemma slab_mode_source_valid:
  assumes "0 < w" "n0 < n_WG" "0 < n0" "0 < wavelength" "isinstance_int ind_m" "0 \<le> int_value ind_m"
  shows "slab_mode_source (Vec xs) w n_WG n0 wavelength ind_m x0 =
     (let ms = modes_sorted w n_WG n0 (2 * pi / wavelength)
      in if ms = [] then Inl (ValueError ''No guided slab modes found in [n0*k0, n_WG*k0].'')
         else Inr (fst (clamp_index (int_value ind_m) (length ms)),
                   field_of_mode (ms ! snd (clamp_index (int_value ind_m) (length ms)))
                     w n_WG n0 (2 * pi / wavelength) x0 xs))"
proof -
  have c: "\<not> w \<le> 0" "\<not> n_WG \<le> n0" "\<not> n0 \<le> 0" "\<not> wavelength \<le> 0"
    "\<not> (\<not> isinstance_int ind_m \<or> int_value ind_m < 0)" "\<not> ndim (Vec xs) \<noteq> 1"
    using assms by auto
  show ?thesis
    unfolding slab_mode_source_def
    by (simp only: c if_False Let_def array_like.case case_prod_unfold length_0_conv)
qed

lemma length_normalize [simp]: "length (normalize R x) = length R"
  by (simp add: normalize_def Let_def)

lemma length_mode_field [simp]: "length (mode_field p kx kappa w x0 x) = length x"
  by (cases p) (simp_all add: mode_field_def)

lemma length_field_of_mode [simp]: "length (field_of_mode m w n_WG n0 k0 x0 x) = length x"
  by (simp add: field_of_mode_def raw_field_of_mode_def Let_def)

lemma slab_mode_source_Inr:
  assumes "slab_mode_source x w n_WG n0 wavelength ind_m x0 = Inr (ws, E)"
  shows "\<exists>xs. x = Vec xs \<and> 0 < w \<and> n0 < n_WG \<and> 0 < n0 \<and> 0 < wavelength
     \<and> isinstance_int ind_m \<and> 0 \<le> int_value ind_m
     \<and> modes_sorted w n_WG n0 (2 * pi / wavelength) \<noteq> []
     \<and> ws = fst (clamp_index (int_value ind_m) (length (modes_sorted w n_WG n0 (2 * pi / wavelength))))
     \<and> E = field_of_mode (modes_sorted w n_WG n0 (2 * pi / wavelength)
                ! snd (clamp_index (int_value ind_m) (length (modes_sorted w n_WG n0 (2 * pi / wavelength)))))
              w n_WG n0 (2 * pi / wavelength) x0 xs"
proof -
  from assms have c: "ndim x = 1" "0 < w" "n0 < n_WG" "0 < n0" "0 < wavelength" "isinstance_int ind_m"
    "0 \<le> int_value ind_m"
    by (auto simp: slab_mode_source_def split: if_splits)
  then obtain xs where x: "x = Vec xs" by (cases x) auto
  from assms show ?thesis
    unfolding x slab_mode_source_valid[OF c(2-7)] Let_def using c by (auto split: if_splits)
qed

section \<open>The mode solver: trigonometric bounds and the closures in units of \<open>k0\<close>\<close>

lemma tan_halving:
  assumes "0 < x" "x < pi / 4"
  shows "tan x \<le> tan (2 * x) / 2"
proof -
  have t0: "0 < tan x" using assms by (intro tan_gt_zero) auto
  have t1: "tan x < 1" using tan_bound_pi2[of x] assms by auto
  have c1: "cos x \<noteq> 0" using cos_gt_zero[of x] assms by auto
  have c2: "cos (2 * x) \<noteq> 0" using cos_gt_zero[of "2 * x"] assms by auto
  have "(tan x)\<^sup>2 < 1\<^sup>2" using t0 t1 by (intro power_strict_mono) auto
  then have d: "0 < 1 - (tan x)\<^sup>2" by simp
  have d1: "1 - (tan x)\<^sup>2 \<le> 1" by simp
  have "tan (2 * x) = 2 * tan x / (1 - (tan x)\<^sup>2)" using tan_double[OF c1 c2] .
  moreover have "2 * tan x \<le> 2 * tan x / (1 - (tan x)\<^sup>2)"
    using t0 d d1 by (simp add: field_simps)
  ultimately have "2 * tan x \<le> tan (2 * x)" by (simp only:)
  then show ?thesis by linarith
qed

lemma tan_pi_pow2: "tan (pi / 2 ^ (k + 2)) \<le> 1 / 2 ^ k"
proof (induction k)
  case 0
  then show ?case by (simp add: tan_45)
next
  case (Suc k)
  have p: "(2::real) ^ (k + 2) \<ge> 4" using power_increasing[of 2 "k + 2" "2::real"] by simp
  have x0: "0 < pi / 2 ^ (Suc k + 2)" by simp
  have "pi / 2 ^ (Suc k + 2) = (pi / 4) / 2 ^ (k + 1)" by (simp add: field_simps)
  also have "\<dots> < pi / 4"
  proof -
    have "(1::real) \<le> 2 ^ k" by (rule one_le_power) simp
    then have "(1::real) < 2 * 2 ^ k" by linarith
    then have "(1::real) < 2 ^ (k + 1)" by simp
    then show ?thesis by (simp add: field_simps)
  qed
  finally have x1: "pi / 2 ^ (Suc k + 2) < pi / 4" .
  have "2 * (pi / 2 ^ (Suc k + 2)) = pi / 2 ^ (k + 2)" by simp
  then have "tan (pi / 2 ^ (Suc k + 2)) \<le> tan (pi / 2 ^ (k + 2)) / 2"
    using tan_halving[OF x0 x1] by simp
  also have "\<dots> \<le> (1 / 2 ^ k) / 2" using Suc by simp
  finally show ?case by simp
qed

lemma tan_pi_128: "tan (pi / 128) \<le> 1 / 32"
  using tan_pi_pow2[of 5] by simp

lemma sin_halving:
  assumes "0 \<le> x" "x \<le> pi"
  shows "sin (2 * x) / 2 \<le> sin x"
proof -
  have "0 \<le> sin x" using assms by (rule sin_ge_zero)
  moreover have "cos x \<le> 1" by simp
  ultimately have "sin x * cos x \<le> sin x * 1" by (intro mult_left_mono) auto
  then show ?thesis by (simp add: sin_double)
qed

lemma sin_pi_pow2: "1 / 2 ^ k \<le> sin (pi / 2 ^ (k + 1))"
proof (induction k)
  case 0
  then show ?case by simp
next
  case (Suc k)
  have x0: "0 \<le> pi / 2 ^ (Suc k + 1)" by simp
  have x1: "pi / 2 ^ (Suc k + 1) \<le> pi"
  proof -
    have "(1::real) \<le> 2 ^ (Suc k + 1)" by (rule one_le_power) simp
    then show ?thesis by (simp add: field_simps)
  qed
  have "2 * (pi / 2 ^ (Suc k + 1)) = pi / 2 ^ (k + 1)" by simp
  then have "sin (pi / 2 ^ (k + 1)) / 2 \<le> sin (pi / 2 ^ (Suc k + 1))"
    using sin_halving[OF x0 x1] by simp
  then show ?case using Suc by simp
qed

lemma sin_pi_128: "1 / 64 \<le> sin (pi / 128)"
  using sin_pi_pow2[of 6] by simp

text \<open>The scan and the closures in units of \<open>k0\<close>.\<close>

lemma beta_scan_scaled:
  "i < 2000 \<Longrightarrow> beta_scan n_WG n0 k0 ! i = k0 * (n0 + real i * ((n_WG - n0) / 1999))"
  by (simp add: nth_beta_scan algebra_simps)

lemma inside_scaled:
  "n_WG ^ 2 * k0 ^ 2 - (k0 * b) ^ 2 = k0 ^ 2 * (n_WG ^ 2 - b ^ 2)" for k0 :: real
  by (simp add: algebra_simps power2_eq_square)

lemma outside_scaled:
  "(k0 * b) ^ 2 - n0 ^ 2 * k0 ^ 2 = k0 ^ 2 * (b ^ 2 - n0 ^ 2)" for k0 :: real
  by (simp add: algebra_simps power2_eq_square)

lemma sqrt_scaled: "0 < k0 \<Longrightarrow> sqrt (k0 ^ 2 * c) = k0 * sqrt c"
  by (simp add: real_sqrt_mult)

lemma f_odd_scaled:
  assumes "0 < k0" "0 < n0" "n0 < b" "b < n_WG"
  shows "f_odd w n_WG n0 k0 (k0 * b) =
     (if \<bar>sin (k0 * sqrt (n_WG ^ 2 - b ^ 2) * w / 2)\<bar> < 1 / 10 ^ 12 then None
      else Some (- (k0 * sqrt (n_WG ^ 2 - b ^ 2))
                   * (cos (k0 * sqrt (n_WG ^ 2 - b ^ 2) * w / 2)
                        / sin (k0 * sqrt (n_WG ^ 2 - b ^ 2) * w / 2))
                 - k0 * sqrt (b ^ 2 - n0 ^ 2)))"
proof -
  have r: "\<not> (k0 * b < n0 * k0 \<or> k0 * b > n_WG * k0)" using assms by (simp add: mult.commute)
  have "b ^ 2 < n_WG ^ 2" using assms by (intro power_strict_mono) auto
  then have i: "\<not> (k0 ^ 2 * (n_WG ^ 2 - b ^ 2) \<le> 0)" using assms by (simp add: zero_less_mult_iff not_le)
  have "n0 ^ 2 < b ^ 2" using assms by (intro power_strict_mono) auto
  then have o: "\<not> (k0 ^ 2 * (b ^ 2 - n0 ^ 2) \<le> 0)" using assms by (simp add: zero_less_mult_iff not_le)
  show ?thesis
    unfolding f_odd_def Let_def inside_scaled outside_scaled
    using r i o by (simp add: sqrt_scaled[OF assms(1)])
qed

lemma f_even_scaled:
  assumes "0 < k0" "0 < n0" "n0 < b" "b < n_WG"
  shows "f_even w n_WG n0 k0 (k0 * b) =
     Some (k0 * sqrt (n_WG ^ 2 - b ^ 2) * tan (k0 * sqrt (n_WG ^ 2 - b ^ 2) * w / 2)
           - k0 * sqrt (b ^ 2 - n0 ^ 2))"
proof -
  have r: "\<not> (k0 * b < n0 * k0 \<or> k0 * b > n_WG * k0)" using assms by (simp add: mult.commute)
  have "b ^ 2 < n_WG ^ 2" using assms by (intro power_strict_mono) auto
  then have i: "\<not> (k0 ^ 2 * (n_WG ^ 2 - b ^ 2) \<le> 0)" using assms by (simp add: zero_less_mult_iff not_le)
  have "n0 ^ 2 < b ^ 2" using assms by (intro power_strict_mono) auto
  then have o: "\<not> (k0 ^ 2 * (b ^ 2 - n0 ^ 2) \<le> 0)" using assms by (simp add: zero_less_mult_iff not_le)
  show ?thesis
    unfolding f_even_def Let_def inside_scaled outside_scaled
    using r i o by (simp add: sqrt_scaled[OF assms(1)])
qed

lemma f_even_top: "f_even w n_WG n0 k0 (n_WG * k0) = None"
  by (simp add: f_even_def Let_def power_mult_distrib)

lemma f_odd_top: "f_odd w n_WG n0 k0 (n_WG * k0) = None"
  by (simp add: f_odd_def Let_def power_mult_distrib)

lemma valid_odd_scaled:
  assumes "0 < k0" "0 \<le> b" "b < n_WG"
  shows "valid_odd w n_WG k0 (k0 * b) \<longleftrightarrow>
     \<lfloor>2 * (k0 * sqrt (n_WG ^ 2 - b ^ 2) * w / 2) / pi\<rfloor> mod 2 = 1"
proof -
  have "b ^ 2 < n_WG ^ 2" using assms by (intro power_strict_mono) auto
  then have i: "\<not> (k0 ^ 2 * (n_WG ^ 2 - b ^ 2) \<le> 0)" using assms by (simp add: zero_less_mult_iff not_le)
  show ?thesis
    unfolding valid_odd_def Let_def inside_scaled
    using i by (simp add: sqrt_scaled[OF assms(1)])
qed

lemma valid_even_scaled:
  assumes "0 < k0" "0 \<le> b" "b < n_WG"
  shows "valid_even w n_WG k0 (k0 * b) \<longleftrightarrow>
     (\<lfloor>2 * (k0 * sqrt (n_WG ^ 2 - b ^ 2) * w / 2) / pi\<rfloor> mod 2 = 0
      \<and> \<not> (\<lfloor>2 * (k0 * sqrt (n_WG ^ 2 - b ^ 2) * w / 2) / pi\<rfloor> = 0
            \<and> k0 * sqrt (n_WG ^ 2 - b ^ 2) * w / 2 > pi / 2 - 1 / 10))"
proof -
  have "b ^ 2 < n_WG ^ 2" using assms by (intro power_strict_mono) auto
  then have i: "\<not> (k0 ^ 2 * (n_WG ^ 2 - b ^ 2) \<le> 0)" using assms by (simp add: zero_less_mult_iff not_le)
  show ?thesis
    unfolding valid_even_def Let_def inside_scaled
    using i by (simp add: sqrt_scaled[OF assms(1)])
qed

section \<open>Example: a thick slab whose first mode is odd\<close>

text \<open>A thick slab: \<open>w = 127/128\<close>, \<open>n_WG = 25.01\<close>, \<open>n0 = 5.02\<close>, \<open>wavelength = 1\<close>.\<close>

lemma thick_scan:
  "i < 2000 \<Longrightarrow> beta_scan (2501 / 100) (251 / 50) (2 * pi) ! i = 2 * pi * (251 / 50 + real i / 100)"
  by (simp add: beta_scan_scaled)

lemma thick_scan_1997: "beta_scan (2501 / 100) (251 / 50) (2 * pi) ! 1997 = 2 * pi * (2499 / 100)"
  by (simp add: thick_scan)

lemma thick_scan_1998: "beta_scan (2501 / 100) (251 / 50) (2 * pi) ! 1998 = 2 * pi * 25"
  by (simp add: thick_scan)

lemma thick_scan_1999: "beta_scan (2501 / 100) (251 / 50) (2 * pi) ! 1999 = 2501 / 100 * (2 * pi)"
  by (simp add: thick_scan)

text \<open>The angle \<open>kx w / 2\<close> at \<open>\<beta> = 2 \<pi> b\<close> is \<open>\<pi> (127/128) s\<close> with \<open>s = sqrt (n_WG\<^sup>2 - b\<^sup>2)\<close>.\<close>

lemma thick_theta:
  "2 * pi * s * (127 / 128) / 2 = pi * (127 / 128 * s)"
  by simp

lemma thick_s_bounds:
  assumes "2499 / 100 < b" "b < 25"
  shows "sqrt (5001 / 10000) < sqrt ((2501 / 100)\<^sup>2 - b\<^sup>2)"
    and "sqrt ((2501 / 100)\<^sup>2 - b\<^sup>2) < 1"
proof -
  have b2: "b\<^sup>2 < 25\<^sup>2" using assms by (intro power_strict_mono) auto
  have b1: "(2499 / 100)\<^sup>2 < b\<^sup>2" using assms by (intro power_strict_mono) auto
  have "5001 / 10000 < (2501 / 100)\<^sup>2 - b\<^sup>2" using b2 by (simp add: power2_eq_square)
  then show "sqrt (5001 / 10000) < sqrt ((2501 / 100)\<^sup>2 - b\<^sup>2)" by simp
  have "(2501 / 100)\<^sup>2 - b\<^sup>2 < 1" using b1 by (simp add: power2_eq_square)
  then have "sqrt ((2501 / 100)\<^sup>2 - b\<^sup>2) < sqrt 1" by (simp only: real_sqrt_less_iff)
  then show "sqrt ((2501 / 100)\<^sup>2 - b\<^sup>2) < 1" by simp
qed

lemma sqrt_5001_bounds: "7 / 10 < sqrt (5001 / 10000)" "sqrt (5001 / 10000) < 3 / 4"
proof -
  have "sqrt ((7 / 10)\<^sup>2) < sqrt (5001 / 10000)"
    by (simp only: real_sqrt_less_iff) (simp add: power2_eq_square)
  then show "7 / 10 < sqrt (5001 / 10000)" by simp
  have "sqrt (5001 / 10000) < sqrt ((3 / 4)\<^sup>2)"
    by (simp only: real_sqrt_less_iff) (simp add: power2_eq_square)
  then show "sqrt (5001 / 10000) < 3 / 4" by simp
qed

text \<open>Between the samples 1997 and 1998 the branch index is 1.\<close>

lemma thick_branch:
  assumes "2499 / 100 < b" "b < 25"
  shows "\<lfloor>2 * (2 * pi * sqrt ((2501 / 100)\<^sup>2 - b\<^sup>2) * (127 / 128) / 2) / pi\<rfloor> = 1"
proof -
  let ?s = "sqrt ((2501 / 100)\<^sup>2 - b\<^sup>2)"
  have s: "7 / 10 < ?s" "?s < 1" using thick_s_bounds[OF assms] sqrt_5001_bounds by linarith+
  have e: "2 * (2 * pi * ?s * (127 / 128) / 2) / pi = 127 / 64 * ?s" by simp
  have "1 \<le> 127 / 64 * ?s" "127 / 64 * ?s < 2" using s by linarith+
  then show ?thesis unfolding e by (simp add: floor_eq_iff)
qed

lemma thick_valid_odd:
  assumes "2499 / 100 < b" "b < 25"
  shows "valid_odd (127 / 128) (2501 / 100) (2 * pi) (2 * pi * b)"
proof -
  have "0 < 2 * pi" "0 \<le> b" "b < 2501 / 100" using assms by auto
  from valid_odd_scaled[OF this] show ?thesis using thick_branch[OF assms] by simp
qed

lemma thick_invalid_even:
  assumes "2499 / 100 < b" "b < 25"
  shows "\<not> valid_even (127 / 128) (2501 / 100) (2 * pi) (2 * pi * b)"
proof -
  have "0 < 2 * pi" "0 \<le> b" "b < 2501 / 100" using assms by auto
  from valid_even_scaled[OF this] show ?thesis using thick_branch[OF assms] by simp
qed

text \<open>The odd characteristic function changes sign between the samples 1997 and 1998.\<close>

lemma thick_f_odd_1997:
  "\<exists>v. f_odd (127 / 128) (2501 / 100) (251 / 50) (2 * pi) (2 * pi * (2499 / 100)) = Some v \<and> 0 < v"
proof -
  have s: "sqrt ((2501 / 100)\<^sup>2 - (2499 / 100)\<^sup>2) = 1"
  proof -
    have "(2501 / 100 :: real)\<^sup>2 - (2499 / 100)\<^sup>2 = 1" by (simp add: power2_eq_square)
    then show ?thesis by simp
  qed
  have th: "2 * pi * 1 * (127 / 128) / 2 = pi - pi / 128" by simp
  have sn: "sin (pi - pi / 128) = sin (pi / 128)" by (rule sin_pi_minus)
  have cs: "cos (pi - pi / 128) = - cos (pi / 128)" by (rule cos_pi_minus)
  have s0: "1 / 64 \<le> sin (pi / 128)" by (rule sin_pi_128)
  have c0: "0 < cos (pi / 128)" by (rule cos_gt_zero) (simp_all add: field_simps)
  have t0: "0 < tan (pi / 128)" by (rule tan_gt_zero) (simp_all add: field_simps)
  have "cos (pi / 128) / sin (pi / 128) = 1 / tan (pi / 128)" by (simp add: tan_def)
  moreover have "32 \<le> 1 / tan (pi / 128)" using tan_pi_128 t0 by (simp add: field_simps)
  ultimately have cot: "32 \<le> cos (pi / 128) / sin (pi / 128)" by simp
  have k: "sqrt ((2499 / 100)\<^sup>2 - (251 / 50)\<^sup>2) < 25"
  proof -
    have "sqrt ((2499 / 100)\<^sup>2 - (251 / 50)\<^sup>2) < sqrt (25\<^sup>2)"
      by (simp only: real_sqrt_less_iff) (simp add: power2_eq_square)
    then show ?thesis by simp
  qed
  have ns: "\<not> \<bar>sin (pi / 128)\<bar> < 1 / 10 ^ 12" using s0 by simp
  have "0 < 2 * pi" "0 < (251 / 50 :: real)" "(251 / 50 :: real) < 2499 / 100" "(2499 / 100 :: real) < 2501 / 100"
    by simp_all
  from f_odd_scaled[OF this, of "127 / 128"]
  have "f_odd (127 / 128) (2501 / 100) (251 / 50) (2 * pi) (2 * pi * (2499 / 100))
      = Some (2 * pi * (cos (pi / 128) / sin (pi / 128))
              - 2 * pi * sqrt ((2499 / 100)\<^sup>2 - (251 / 50)\<^sup>2))"
    unfolding s th sn cs using ns by simp
  moreover have "0 < 2 * pi * (cos (pi / 128) / sin (pi / 128))
              - 2 * pi * sqrt ((2499 / 100)\<^sup>2 - (251 / 50)\<^sup>2)"
  proof -
    have "sqrt ((2499 / 100)\<^sup>2 - (251 / 50)\<^sup>2) < cos (pi / 128) / sin (pi / 128)"
      using cot k by linarith
    then have "2 * pi * sqrt ((2499 / 100)\<^sup>2 - (251 / 50)\<^sup>2)
        < 2 * pi * (cos (pi / 128) / sin (pi / 128))"
      by (intro mult_strict_left_mono) auto
    then show ?thesis by simp
  qed
  ultimately show ?thesis by blast
qed

lemma thick_f_odd_1998:
  "\<exists>v. f_odd (127 / 128) (2501 / 100) (251 / 50) (2 * pi) (2 * pi * 25) = Some v \<and> v < 0"
proof -
  let ?s = "sqrt ((2501 / 100)\<^sup>2 - 25\<^sup>2)"
  have se: "(2501 / 100 :: real)\<^sup>2 - 25\<^sup>2 = 5001 / 10000" by (simp add: power2_eq_square)
  have s: "7 / 10 < ?s" "?s < 3 / 4" unfolding se using sqrt_5001_bounds by auto
  define y where "y = pi - pi * (127 / 128 * ?s)"
  have th: "2 * pi * ?s * (127 / 128) / 2 = pi - y" by (simp add: y_def)
  have "127 / 128 * ?s < 3 / 4" "1 / 2 < 127 / 128 * ?s" using s by auto
  then have "pi * (127 / 128 * ?s) < pi * (3 / 4)" "pi * (1 / 2) < pi * (127 / 128 * ?s)"
    by (auto intro!: mult_strict_left_mono)
  then have y: "pi / 4 < y" "y < pi / 2" by (auto simp: y_def)
  have "sin (pi / 4) \<le> sin y \<longleftrightarrow> pi / 4 \<le> y"
    by (rule sin_mono_le_eq) (use y in auto)
  then have sy: "sin (pi / 4) \<le> sin y" using y by simp
  have s2: "0 < sqrt 2 / 2" by simp
  have "1 / 2 \<le> sqrt 2 / 2"
  proof -
    have "sqrt 1 \<le> sqrt 2" by (simp only: real_sqrt_le_iff)
    then show ?thesis by simp
  qed
  moreover have "sqrt 2 / 2 \<le> sin y" using sy by (simp only: sin_45)
  ultimately have sy': "1 / 2 \<le> sin y" by linarith
  have ty: "1 \<le> tan y"
    using tan_mono_le[of "pi / 4" y] y by (simp add: tan_45)
  have cy: "0 < cos y" using y by (intro cos_gt_zero) auto
  have ct: "cos y / sin y \<le> 1"
  proof -
    have "cos y / sin y = 1 / tan y" by (simp add: tan_def)
    also have "\<dots> \<le> 1" using ty by simp
    finally show ?thesis .
  qed
  have ns: "\<not> \<bar>sin y\<bar> < 1 / 10 ^ 12" using sy' by simp
  have k: "24 < sqrt (25\<^sup>2 - (251 / 50)\<^sup>2)"
  proof -
    have "sqrt (24\<^sup>2) < sqrt (25\<^sup>2 - (251 / 50)\<^sup>2)"
      by (simp only: real_sqrt_less_iff) (simp add: power2_eq_square)
    then show ?thesis by simp
  qed
  have "0 < 2 * pi" "0 < (251 / 50 :: real)" "(251 / 50 :: real) < 25" "(25 :: real) < 2501 / 100"
    by simp_all
  from f_odd_scaled[OF this, of "127 / 128"]
  have "f_odd (127 / 128) (2501 / 100) (251 / 50) (2 * pi) (2 * pi * 25)
      = Some (2 * pi * ?s * (cos y / sin y) - 2 * pi * sqrt (25\<^sup>2 - (251 / 50)\<^sup>2))"
    unfolding th using ns by simp
  moreover have "2 * pi * ?s * (cos y / sin y) - 2 * pi * sqrt (25\<^sup>2 - (251 / 50)\<^sup>2) < 0"
  proof -
    have s0: "0 \<le> ?s" using s by linarith
    have "?s * (cos y / sin y) \<le> ?s * 1" by (rule mult_left_mono[OF ct s0])
    then have "?s * (cos y / sin y) < sqrt (25\<^sup>2 - (251 / 50)\<^sup>2)" using s k by linarith
    then have "2 * pi * (?s * (cos y / sin y)) < 2 * pi * sqrt (25\<^sup>2 - (251 / 50)\<^sup>2)"
      by (intro mult_strict_left_mono) auto
    then show ?thesis by (simp add: mult.assoc)
  qed
  ultimately show ?thesis by blast
qed

lemma thick_root_bounds: "2 * pi * (2499 / 100) < thick_root" "thick_root < 2 * pi * 25"
proof -
  have "2 * pi * (2499 / 100) < 2 * pi * 25" by simp
  from refine_root_bounds[OF this, of "f_odd (127 / 128) (2501 / 100) (251 / 50) (2 * pi)"]
  show "2 * pi * (2499 / 100) < thick_root" "thick_root < 2 * pi * 25"
    unfolding thick_root_def by simp_all
qed

lemma between_scaled:
  assumes "2 * pi * lo < x" "x < 2 * pi * hi"
  shows "\<exists>b. x = 2 * pi * b \<and> lo < b \<and> b < hi"
proof -
  have "x = 2 * pi * (x / (2 * pi))" by simp
  moreover have "lo < x / (2 * pi)" using assms(1) by (simp add: field_simps)
  moreover have "x / (2 * pi) < hi" using assms(2) by (simp add: field_simps)
  ultimately show ?thesis by blast
qed

lemma thick_sign_change:
  "sign_change (f_odd (127 / 128) (2501 / 100) (251 / 50) (2 * pi) (2 * pi * (2499 / 100)))
               (f_odd (127 / 128) (2501 / 100) (251 / 50) (2 * pi) (2 * pi * 25))"
proof -
  from thick_f_odd_1997 obtain u where
    u: "f_odd (127 / 128) (2501 / 100) (251 / 50) (2 * pi) (2 * pi * (2499 / 100)) = Some u" "0 < u"
    by blast
  from thick_f_odd_1998 obtain v where
    v: "f_odd (127 / 128) (2501 / 100) (251 / 50) (2 * pi) (2 * pi * 25) = Some v" "v < 0"
    by blast
  have "u * v < 0" using u(2) v(2) by (simp add: mult_pos_neg)
  then show ?thesis unfolding u(1) v(1) by (simp add: sign_change_def)
qed

lemma thick_root_valid: "valid_odd (127 / 128) (2501 / 100) (2 * pi) thick_root"
proof -
  from between_scaled[OF thick_root_bounds] obtain b where
    e: "thick_root = 2 * pi * b" and b: "2499 / 100 < b" "b < 25" by blast
  show ?thesis unfolding e by (rule thick_valid_odd[OF b])
qed

lemma thick_root_in_odd_roots:
  "thick_root \<in> set (odd_roots (127 / 128) (2501 / 100) (251 / 50) (2 * pi))"
  unfolding odd_roots_iff
proof (intro exI[of _ 1997] conjI)
  show "(1997::nat) < 1999" by simp
  show "sign_change
     (f_odd (127 / 128) (2501 / 100) (251 / 50) (2 * pi)
       (beta_scan (2501 / 100) (251 / 50) (2 * pi) ! 1997))
     (f_odd (127 / 128) (2501 / 100) (251 / 50) (2 * pi)
       (beta_scan (2501 / 100) (251 / 50) (2 * pi) ! (1997 + 1)))"
    using thick_sign_change by (simp add: thick_scan_1997 thick_scan_1998)
  show "thick_root =
    refine_root (f_odd (127 / 128) (2501 / 100) (251 / 50) (2 * pi))
     (beta_scan (2501 / 100) (251 / 50) (2 * pi) ! 1997)
     (beta_scan (2501 / 100) (251 / 50) (2 * pi) ! (1997 + 1))"
    by (simp add: thick_scan_1997 thick_scan_1998 thick_root_def)
  show "valid_odd (127 / 128) (2501 / 100) (2 * pi) thick_root" by (rule thick_root_valid)
qed

text \<open>Every root found in a bracket below sample 1997 is smaller than \<open>thick_root\<close>.\<close>

lemma thick_scan_le:
  assumes "i \<le> 1997"
  shows "beta_scan (2501 / 100) (251 / 50) (2 * pi) ! i \<le> 2 * pi * (2499 / 100)"
proof -
  have "real i \<le> 1997" using assms by simp
  then have "251 / 50 + real i / 100 \<le> 2499 / 100" by simp
  then have "2 * pi * (251 / 50 + real i / 100) \<le> 2 * pi * (2499 / 100)"
    by (intro mult_left_mono) auto
  then show ?thesis using assms by (simp add: thick_scan)
qed

lemma thick_scan_lt:
  assumes "i < 1999"
  shows "beta_scan (2501 / 100) (251 / 50) (2 * pi) ! i < beta_scan (2501 / 100) (251 / 50) (2 * pi) ! (i + 1)"
  by (rule beta_scan_mono) (use assms in auto)

lemma thick_low_bracket:
  assumes "i < 1997"
  shows "refine_root f (beta_scan (2501 / 100) (251 / 50) (2 * pi) ! i)
            (beta_scan (2501 / 100) (251 / 50) (2 * pi) ! (i + 1)) < thick_root"
proof -
  have i: "i < 1999" "i + 1 \<le> 1997" using assms by auto
  from refine_root_bounds[OF thick_scan_lt[OF i(1)], of f] thick_scan_le[OF i(2)] thick_root_bounds(1)
  show ?thesis by linarith
qed

lemma thick_even_roots_below:
  assumes "b \<in> set (even_roots (127 / 128) (2501 / 100) (251 / 50) (2 * pi))"
  shows "b < thick_root"
proof -
  let ?scan = "beta_scan (2501 / 100) (251 / 50) (2 * pi)"
  let ?f = "f_even (127 / 128) (2501 / 100) (251 / 50) (2 * pi)"
  from assms obtain i where i: "i < 1999"
    and sc: "sign_change (?f (?scan ! i)) (?f (?scan ! (i + 1)))"
    and b: "b = refine_root ?f (?scan ! i) (?scan ! (i + 1))"
    and v: "valid_even (127 / 128) (2501 / 100) (2 * pi) b"
    unfolding even_roots_iff by blast
  consider "i < 1997" | "i = 1997" | "i = 1998" using i by linarith
  then show ?thesis
  proof cases
    case 1
    then show ?thesis unfolding b by (rule thick_low_bracket)
  next
    case 2
    have "2 * pi * (2499 / 100) < b" "b < 2 * pi * 25"
      using refine_root_bounds[OF thick_scan_lt[OF i], of ?f] unfolding b 2
      by (simp_all add: thick_scan_1997 thick_scan_1998)
    from between_scaled[OF this] obtain c where e: "b = 2 * pi * c" and c: "2499 / 100 < c" "c < 25"
      by blast
    show ?thesis using thick_invalid_even[OF c] v unfolding e by blast
  next
    case 3
    have "?scan ! (i + 1) = 2501 / 100 * (2 * pi)" unfolding 3 using thick_scan_1999 by simp
    then have "?f (?scan ! (i + 1)) = None" by (simp only: f_even_top)
    then show ?thesis using sc by (simp add: sign_change_def split: option.splits)
  qed
qed

lemma thick_odd_roots_below:
  assumes "b \<in> set (odd_roots (127 / 128) (2501 / 100) (251 / 50) (2 * pi))"
  shows "b \<le> thick_root"
proof -
  let ?scan = "beta_scan (2501 / 100) (251 / 50) (2 * pi)"
  let ?f = "f_odd (127 / 128) (2501 / 100) (251 / 50) (2 * pi)"
  from assms obtain i where i: "i < 1999"
    and sc: "sign_change (?f (?scan ! i)) (?f (?scan ! (i + 1)))"
    and b: "b = refine_root ?f (?scan ! i) (?scan ! (i + 1))"
    unfolding odd_roots_iff by blast
  consider "i < 1997" | "i = 1997" | "i = 1998" using i by linarith
  then show ?thesis
  proof cases
    case 1
    then show ?thesis unfolding b using thick_low_bracket[of i ?f] by simp
  next
    case 2
    then show ?thesis unfolding b by (simp add: thick_scan_1997 thick_scan_1998 thick_root_def)
  next
    case 3
    have "?scan ! (i + 1) = 2501 / 100 * (2 * pi)" unfolding 3 using thick_scan_1999 by simp
    then have "?f (?scan ! (i + 1)) = None" by (simp only: f_odd_top)
    then show ?thesis using sc by (simp add: sign_change_def split: option.splits)
  qed
qed

text \<open>The first entry of a list sorted with \<open>sort_key\<close> has the least key.\<close>

lemma hd_sort_key:
  assumes "xs \<noteq> []"
  shows "hd (sort_key f xs) \<in> set xs \<and> (\<forall>y \<in> set xs. f (hd (sort_key f xs)) \<le> f y)"
proof -
  let ?ys = "sort_key f xs"
  have ne: "?ys \<noteq> []" using assms by (metis length_0_conv length_sort)
  then obtain z zs where ys: "?ys = z # zs" by (cases ?ys) auto
  have "sorted (map f ?ys)" by (rule sorted_sort_key)
  then have "\<forall>y \<in> set zs. f z \<le> f y" unfolding ys by simp
  then have "\<forall>y \<in> set ?ys. f z \<le> f y" unfolding ys by simp
  moreover have "z \<in> set ?ys" unfolding ys by simp
  ultimately have "z \<in> set xs \<and> (\<forall>y \<in> set xs. f z \<le> f y)" by simp
  then show ?thesis unfolding ys by simp
qed

lemma thick_modes_head:
  "modes_sorted (127 / 128) (2501 / 100) (251 / 50) (2 * pi) \<noteq> []"
  "modes_sorted (127 / 128) (2501 / 100) (251 / 50) (2 * pi) ! 0 = (Odd, thick_root)"
proof -
  let ?e = "even_roots (127 / 128) (2501 / 100) (251 / 50) (2 * pi)"
  let ?o = "odd_roots (127 / 128) (2501 / 100) (251 / 50) (2 * pi)"
  define modes where "modes = map (Pair Even) ?e @ map (Pair Odd) ?o"
  define ms where "ms = sort_key (\<lambda>tup. - snd tup) modes"
  have ms: "modes_sorted (127 / 128) (2501 / 100) (251 / 50) (2 * pi) = ms"
    by (simp add: modes_sorted_def Let_def ms_def modes_def)
  have mem: "(Odd, thick_root) \<in> set modes"
    using thick_root_in_odd_roots unfolding modes_def by simp
  have cases: "\<And>p b. (p, b) \<in> set modes \<Longrightarrow> p = Even \<and> b \<in> set ?e \<or> p = Odd \<and> b \<in> set ?o"
    unfolding modes_def by auto
  have ne: "modes \<noteq> []" using mem by auto
  have "length ms = length modes" unfolding ms_def by (rule length_sort)
  then have ne': "ms \<noteq> []" using ne by auto
  from hd_sort_key[OF ne, of "\<lambda>tup. - snd tup"]
  have h1: "hd ms \<in> set modes" and h2: "\<forall>y \<in> set modes. - snd (hd ms) \<le> - snd y"
    unfolding ms_def by blast+
  have "- snd (hd ms) \<le> - snd (Odd, thick_root)" using h2 mem by blast
  then have ge: "thick_root \<le> snd (hd ms)" by simp
  obtain p b where pb: "hd ms = (p, b)" by (cases "hd ms")
  have "(p, b) \<in> set modes" using h1 pb by simp
  from cases[OF this] have "p = Odd \<and> b = thick_root"
  proof
    assume "p = Even \<and> b \<in> set ?e"
    then have "b < thick_root" using thick_even_roots_below by blast
    then show ?thesis using ge pb by simp
  next
    assume a: "p = Odd \<and> b \<in> set ?o"
    then have "b \<le> thick_root" using thick_odd_roots_below by blast
    then show ?thesis using ge pb a by simp
  qed
  then have "hd ms = (Odd, thick_root)" using pb by simp
  then have "ms ! 0 = (Odd, thick_root)" using ne' by (simp add: hd_conv_nth)
  then show "modes_sorted (127 / 128) (2501 / 100) (251 / 50) (2 * pi) ! 0 = (Odd, thick_root)"
    unfolding ms .
  show "modes_sorted (127 / 128) (2501 / 100) (251 / 50) (2 * pi) \<noteq> []"
    unfolding ms by (rule ne')
qed

lemma trapezoid_two: "trapezoid [y0, y1] [x0, x1] = (x1 - x0) * (y1 + y0) / 2"
  by (simp add: trapezoid_def np_diff_def)

lemma trapezoid_one: "trapezoid ys [x0] = 0"
  by (simp add: trapezoid_def np_diff_def)

lemma power_integral_one: "power_integral E [x0] = 0"
  by (simp add: power_integral_def trapezoid_one)

lemma normalize_antisymmetric_pair:
  assumes "0 < S"
  shows "normalize [complex_of_real (- S), complex_of_real S] [- 1, 1]
       = [- complex_of_real (1 / sqrt 2), complex_of_real (1 / sqrt 2)]"
    and "power_integral [complex_of_real (- S), complex_of_real S] [- 1, 1] = 2 * S\<^sup>2"
proof -
  show I: "power_integral [complex_of_real (- S), complex_of_real S] [- 1, 1] = 2 * S\<^sup>2"
    by (simp add: power_integral_def trapezoid_two norm_of_real del: of_real_minus)
  have "sqrt (2 * S\<^sup>2) = sqrt 2 * S" using assms by (simp add: real_sqrt_mult)
  then have n: "sqrt (power_integral [complex_of_real (- S), complex_of_real S] [- 1, 1]) = sqrt 2 * S"
    unfolding I .
  have q: "S / (sqrt 2 * S) = 1 / sqrt 2" using assms by simp
  have "complex_of_real S / complex_of_real (sqrt 2 * S) = complex_of_real (1 / sqrt 2)"
    unfolding of_real_divide[symmetric] q ..
  moreover have "complex_of_real (- S) / complex_of_real (sqrt 2 * S) = - complex_of_real (1 / sqrt 2)"
    unfolding of_real_divide[symmetric] of_real_minus[symmetric] using q by simp
  ultimately show "normalize [complex_of_real (- S), complex_of_real S] [- 1, 1]
       = [- complex_of_real (1 / sqrt 2), complex_of_real (1 / sqrt 2)]"
    unfolding normalize_def Let_def n by simp
qed

lemma thick_raw_field:
  "\<exists>S. 0 < S \<and>
     raw_field_of_mode (Odd, thick_root) (127 / 128) (2501 / 100) (251 / 50) (2 * pi) 0 [- 1, 1]
       = [complex_of_real (- S), complex_of_real S]"
proof -
  from between_scaled[OF thick_root_bounds] obtain b where
    e: "thick_root = 2 * pi * b" and b: "2499 / 100 < b" "b < 25" by blast
  let ?s = "sqrt ((2501 / 100)\<^sup>2 - b\<^sup>2)"
  have s: "7 / 10 < ?s" "?s < 1" using thick_s_bounds[OF b] sqrt_5001_bounds by linarith+
  have kx: "sqrt ((2501 / 100)\<^sup>2 * (2 * pi)\<^sup>2 - thick_root\<^sup>2) = 2 * pi * ?s"
    unfolding e inside_scaled by (rule sqrt_scaled) simp
  define kappa where "kappa = sqrt (thick_root\<^sup>2 - (251 / 50)\<^sup>2 * (2 * pi)\<^sup>2)"
  define S where "S = sin (2 * pi * ?s * (127 / 128 / 2)) * exp (- kappa * (1 - 127 / 128 / 2))"
  have th: "2 * pi * ?s * (127 / 128 / 2) = pi * (127 / 128 * ?s)" by simp
  have "0 < 127 / 128 * ?s" "127 / 128 * ?s < 1" using s by linarith+
  then have "0 < pi * (127 / 128 * ?s)" "pi * (127 / 128 * ?s) < pi * 1"
    by (auto intro!: mult_strict_left_mono simp del: mult_1_right)
  then have "0 < sin (pi * (127 / 128 * ?s))" by (intro sin_gt_zero) auto
  then have S: "0 < S" unfolding S_def th by simp
  have "raw_field_of_mode (Odd, thick_root) (127 / 128) (2501 / 100) (251 / 50) (2 * pi) 0 [- 1, 1]
       = [complex_of_real (- S), complex_of_real S]"
    unfolding raw_field_of_mode_def Let_def fst_conv snd_conv kx kappa_def[symmetric]
    by (simp add: mode_field_def S_def)
  then show ?thesis using S by blast
qed

lemma thick_field:
  "field_of_mode (Odd, thick_root) (127 / 128) (2501 / 100) (251 / 50) (2 * pi) 0 [- 1, 1]
     = [- complex_of_real (1 / sqrt 2), complex_of_real (1 / sqrt 2)]"
  "0 < power_integral
         (raw_field_of_mode (Odd, thick_root) (127 / 128) (2501 / 100) (251 / 50) (2 * pi) 0 [- 1, 1])
         [- 1, 1]"
proof -
  from thick_raw_field obtain S where S: "0 < S"
    and r: "raw_field_of_mode (Odd, thick_root) (127 / 128) (2501 / 100) (251 / 50) (2 * pi) 0 [- 1, 1]
       = [complex_of_real (- S), complex_of_real S]" by blast
  show "field_of_mode (Odd, thick_root) (127 / 128) (2501 / 100) (251 / 50) (2 * pi) 0 [- 1, 1]
     = [- complex_of_real (1 / sqrt 2), complex_of_real (1 / sqrt 2)]"
    unfolding field_of_mode_def r by (rule normalize_antisymmetric_pair(1)[OF S])
  show "0 < power_integral
         (raw_field_of_mode (Odd, thick_root) (127 / 128) (2501 / 100) (251 / 50) (2 * pi) 0 [- 1, 1])
         [- 1, 1]"
    unfolding r normalize_antisymmetric_pair(2)[OF S] using S by simp
qed

lemma thick_params:
  "(0::real) < 127 / 128" "(251 / 50 :: real) < 2501 / 100" "(0::real) < 251 / 50" "(0::real) < 1"
  by simp_all

lemma thick_slab_mode_source:
  assumes "isinstance_int ind_m" "0 \<le> int_value ind_m"
  shows "slab_mode_source (Vec xs) (127 / 128) (2501 / 100) (251 / 50) 1 ind_m x0 =
     Inr (fst (clamp_index (int_value ind_m)
                 (length (modes_sorted (127 / 128) (2501 / 100) (251 / 50) (2 * pi)))),
          field_of_mode
            (modes_sorted (127 / 128) (2501 / 100) (251 / 50) (2 * pi)
               ! snd (clamp_index (int_value ind_m)
                        (length (modes_sorted (127 / 128) (2501 / 100) (251 / 50) (2 * pi)))))
            (127 / 128) (2501 / 100) (251 / 50) (2 * pi) x0 xs)"
proof -
  have k: "2 * pi / 1 = 2 * pi" by simp
  show ?thesis
    unfolding slab_mode_source_valid[OF thick_params assms] Let_def k
    using thick_modes_head(1) by (simp only: if_False)
qed

lemma thick_fundamental:
  "slab_mode_source (Vec xs) (127 / 128) (2501 / 100) (251 / 50) 1 (PyInt 0) 0 =
     Inr ([], field_of_mode (Odd, thick_root) (127 / 128) (2501 / 100) (251 / 50) (2 * pi) 0 xs)"
proof -
  have c: "clamp_index (int_value (PyInt 0))
             (length (modes_sorted (127 / 128) (2501 / 100) (251 / 50) (2 * pi))) = ([], 0)"
    using thick_modes_head(1) by (simp add: clamp_index_def)
  have p: "isinstance_int (PyInt 0)" "0 \<le> int_value (PyInt 0)" by simp_all
  show ?thesis
    unfolding thick_slab_mode_source[OF p] c fst_conv snd_conv thick_modes_head(2) ..
qed

lemma thick_fundamental_pair:
  "slab_mode_source (Vec [- 1, 1]) (127 / 128) (2501 / 100) (251 / 50) 1 (PyInt 0) 0 =
     Inr ([], [- complex_of_real (1 / sqrt 2), complex_of_real (1 / sqrt 2)])"
  unfolding thick_fundamental thick_field(1) ..

section \<open>Example: a thin slab with one even mode\<close>

text \<open>A thin slab with one even mode: \<open>w = sqrt 6 / 48\<close>, \<open>n_WG = 7\<close>, \<open>n0 = 1\<close>,
  \<open>wavelength = 1\<close>. Its characteristic equation has the root \<open>\<beta> = 2 \<pi> 5\<close>, where
  \<open>kx w / 2 = \<pi> / 4\<close> and \<open>kx = \<kappa>\<close>.\<close>

lemma thin_scan:
  "i < 2000 \<Longrightarrow> beta_scan 7 1 (2 * pi) ! i = 2 * pi * (1 + real i * (6 / 1999))"
  by (simp add: beta_scan_scaled)

lemma thin_scan_1332: "beta_scan 7 1 (2 * pi) ! 1332 = 2 * pi * (9991 / 1999)"
  by (simp add: thin_scan)

lemma thin_scan_1333: "beta_scan 7 1 (2 * pi) ! 1333 = 2 * pi * (9997 / 1999)"
  by (simp add: thin_scan)

lemma sqrt_24_6: "sqrt 24 * sqrt 6 = 12"
proof -
  have "sqrt 24 * sqrt 6 = sqrt (12\<^sup>2)" unfolding real_sqrt_mult[symmetric] by simp
  then show ?thesis by simp
qed

lemma sqrt_6_bounds: "2 < sqrt 6" "sqrt 6 < 5 / 2"
proof -
  have "sqrt (2\<^sup>2) < sqrt 6" by (simp only: real_sqrt_less_iff) simp
  then show "2 < sqrt 6" by simp
  have "sqrt 6 < sqrt ((5 / 2)\<^sup>2)" by (simp only: real_sqrt_less_iff) (simp add: power2_eq_square)
  then show "sqrt 6 < 5 / 2" by simp
qed

lemma thin_theta: "2 * pi * s * (sqrt 6 / 48) / 2 = pi * (s * sqrt 6 / 48)"
  by simp

lemma thin_f_even_left:
  assumes "1 < b" "b < 5"
  shows "\<exists>v. f_even (sqrt 6 / 48) 7 1 (2 * pi) (2 * pi * b) = Some v \<and> 0 < v"
proof -
  let ?s = "sqrt (7\<^sup>2 - b\<^sup>2)"
  have b2: "b\<^sup>2 < 5\<^sup>2" using assms by (intro power_strict_mono) auto
  have "24 < 7\<^sup>2 - b\<^sup>2" using b2 by simp
  then have s1: "sqrt 24 < ?s" by (simp only: real_sqrt_less_iff)
  have "7\<^sup>2 - b\<^sup>2 \<le> 7\<^sup>2" by simp
  then have "?s \<le> sqrt (7\<^sup>2)" by (simp only: real_sqrt_le_iff)
  then have s2: "?s \<le> 7" by simp
  have "b\<^sup>2 - 1\<^sup>2 < 24" using b2 by simp
  then have k: "sqrt (b\<^sup>2 - 1\<^sup>2) < sqrt 24" by (simp only: real_sqrt_less_iff)
  have "sqrt 24 * sqrt 6 < ?s * sqrt 6" using s1 sqrt_6_bounds by (intro mult_strict_right_mono) auto
  then have u1: "12 < ?s * sqrt 6" unfolding sqrt_24_6 .
  have "?s * sqrt 6 \<le> 7 * sqrt 6" using s2 sqrt_6_bounds by (intro mult_right_mono) auto
  then have u2: "?s * sqrt 6 < 24" using sqrt_6_bounds by linarith
  define u where "u = ?s * sqrt 6 / 48"
  have ub: "1 / 4 < u" "u < 1 / 2" using u1 u2 unfolding u_def by linarith+
  have "pi * (1 / 4) < pi * u" by (rule mult_strict_left_mono[OF ub(1)]) simp
  moreover have "pi * u < pi * (1 / 2)" by (rule mult_strict_left_mono[OF ub(2)]) simp
  ultimately have th: "pi / 4 < pi * u" "pi * u < pi / 2" by simp_all
  have "tan (pi / 4) < tan (pi * u)"
    using tan_mono_lt_eq[of "pi / 4" "pi * u"] th by simp
  then have t: "1 < tan (pi * (?s * sqrt 6 / 48))" unfolding u_def by (simp only: tan_45)
  have "0 < sqrt 24" by simp
  then have s0: "0 < ?s" using s1 by linarith
  have "?s * 1 < ?s * tan (pi * (?s * sqrt 6 / 48))" using t s0 by (intro mult_strict_left_mono)
  then have "sqrt (b\<^sup>2 - 1\<^sup>2) < ?s * tan (pi * (?s * sqrt 6 / 48))" using k s1 by linarith
  then have "2 * pi * sqrt (b\<^sup>2 - 1\<^sup>2) < 2 * pi * (?s * tan (pi * (?s * sqrt 6 / 48)))"
    by (intro mult_strict_left_mono) auto
  then have pos: "0 < 2 * pi * ?s * tan (pi * (?s * sqrt 6 / 48)) - 2 * pi * sqrt (b\<^sup>2 - 1\<^sup>2)"
    by (simp add: mult.assoc)
  have "0 < 2 * pi" "(0::real) < 1" "1 < b" "b < 7" using assms by simp_all
  from f_even_scaled[OF this, of "sqrt 6 / 48"] pos show ?thesis
    unfolding thin_theta by blast
qed

lemma thin_f_even_right:
  assumes "5 < b" "b < 7"
  shows "\<exists>v. f_even (sqrt 6 / 48) 7 1 (2 * pi) (2 * pi * b) = Some v \<and> v < 0"
proof -
  let ?s = "sqrt (7\<^sup>2 - b\<^sup>2)"
  have b2: "5\<^sup>2 < b\<^sup>2" using assms by (intro power_strict_mono) auto
  have b3: "b\<^sup>2 < 7\<^sup>2" using assms by (intro power_strict_mono) auto
  have "7\<^sup>2 - b\<^sup>2 < 24" using b2 by simp
  then have s1: "?s < sqrt 24" by (simp only: real_sqrt_less_iff)
  have "0 < 7\<^sup>2 - b\<^sup>2" using b3 by simp
  then have s0: "0 < ?s" by (rule real_sqrt_gt_zero)
  have "24 < b\<^sup>2 - 1\<^sup>2" using b2 by simp
  then have k: "sqrt 24 < sqrt (b\<^sup>2 - 1\<^sup>2)" by (simp only: real_sqrt_less_iff)
  have "?s * sqrt 6 < sqrt 24 * sqrt 6" using s1 sqrt_6_bounds by (intro mult_strict_right_mono) auto
  then have u1: "?s * sqrt 6 < 12" unfolding sqrt_24_6 .
  have u0: "0 < ?s * sqrt 6" using s0 sqrt_6_bounds by simp
  define u where "u = ?s * sqrt 6 / 48"
  have ub: "0 < u" "u < 1 / 4" using u0 u1 unfolding u_def by linarith+
  have "pi * u < pi * (1 / 4)" by (rule mult_strict_left_mono[OF ub(2)]) simp
  moreover have "0 < pi * u" using ub(1) by simp
  ultimately have th: "0 < pi * u" "pi * u < pi / 4" by simp_all
  have "tan (pi * u) < tan (pi / 4)"
    using tan_mono_lt_eq[of "pi * u" "pi / 4"] th by simp
  then have t: "tan (pi * (?s * sqrt 6 / 48)) < 1" unfolding u_def by (simp only: tan_45)
  have "?s * tan (pi * (?s * sqrt 6 / 48)) < ?s * 1" using t s0 by (intro mult_strict_left_mono)
  then have "?s * tan (pi * (?s * sqrt 6 / 48)) < sqrt (b\<^sup>2 - 1\<^sup>2)" using k s1 by linarith
  then have "2 * pi * (?s * tan (pi * (?s * sqrt 6 / 48))) < 2 * pi * sqrt (b\<^sup>2 - 1\<^sup>2)"
    by (intro mult_strict_left_mono) auto
  then have neg: "2 * pi * ?s * tan (pi * (?s * sqrt 6 / 48)) - 2 * pi * sqrt (b\<^sup>2 - 1\<^sup>2) < 0"
    by (simp add: mult.assoc)
  have "0 < 2 * pi" "(0::real) < 1" "1 < b" "b < 7" using assms by simp_all
  from f_even_scaled[OF this, of "sqrt 6 / 48"] neg show ?thesis
    unfolding thin_theta by blast
qed

text \<open>For every \<open>\<beta>\<close> below \<open>n_WG k0\<close> the branch index is 0.\<close>

lemma thin_branch:
  assumes "0 \<le> b" "b < 7"
  shows "\<lfloor>2 * (2 * pi * sqrt (7\<^sup>2 - b\<^sup>2) * (sqrt 6 / 48) / 2) / pi\<rfloor> = 0"
proof -
  let ?s = "sqrt (7\<^sup>2 - b\<^sup>2)"
  have e: "2 * (2 * pi * ?s * (sqrt 6 / 48) / 2) / pi = ?s * sqrt 6 / 24" by simp
  have "7\<^sup>2 - b\<^sup>2 \<le> 7\<^sup>2" by simp
  then have "?s \<le> sqrt (7\<^sup>2)" by (simp only: real_sqrt_le_iff)
  then have s2: "?s \<le> 7" by simp
  have "b\<^sup>2 < 7\<^sup>2" using assms by (intro power_strict_mono) auto
  then have "0 < 7\<^sup>2 - b\<^sup>2" by simp
  then have s0: "0 < ?s" by (rule real_sqrt_gt_zero)
  have a: "?s * sqrt 6 \<le> 7 * sqrt 6" using s2 sqrt_6_bounds by (intro mult_right_mono) auto
  have p: "0 < ?s * sqrt 6" using s0 sqrt_6_bounds by (intro mult_pos_pos) auto
  define u where "u = ?s * sqrt 6 / 24"
  have "u < 1" "0 \<le> u" using a p sqrt_6_bounds unfolding u_def by linarith+
  then have "\<lfloor>u\<rfloor> = 0" by (simp add: floor_eq_iff)
  then show ?thesis unfolding e u_def .
qed

lemma thin_invalid_odd: "\<not> valid_odd (sqrt 6 / 48) 7 (2 * pi) x"
proof (cases "7\<^sup>2 * (2 * pi)\<^sup>2 - x\<^sup>2 \<le> 0")
  case True
  then show ?thesis by (simp add: valid_odd_def)
next
  case False
  let ?kx = "sqrt (7\<^sup>2 * (2 * pi)\<^sup>2 - x\<^sup>2)"
  have k0: "0 < ?kx" using False by (intro real_sqrt_gt_zero) simp
  have "7\<^sup>2 * (2 * pi)\<^sup>2 - x\<^sup>2 \<le> (14 * pi)\<^sup>2" by (simp add: power2_eq_square)
  then have "?kx \<le> sqrt ((14 * pi)\<^sup>2)" by (simp only: real_sqrt_le_iff)
  moreover have "sqrt ((14 * pi)\<^sup>2) = 14 * pi"
    by (simp only: real_sqrt_abs) simp
  ultimately have k1: "?kx \<le> 14 * pi" by (simp only:)
  define u where "u = 2 * (?kx * (sqrt 6 / 48) / 2) / pi"
  have e: "u = ?kx / pi * (sqrt 6 / 48)" unfolding u_def by (simp add: ac_simps)
  have q: "?kx / pi \<le> 14" using k1 by (simp add: field_simps)
  have q0: "0 < ?kx / pi" using k0 by simp
  have "?kx / pi * (sqrt 6 / 48) \<le> 14 * (sqrt 6 / 48)"
    using q sqrt_6_bounds by (intro mult_right_mono) auto
  then have "u < 1" unfolding e using sqrt_6_bounds by linarith
  moreover have "0 \<le> ?kx / pi * (sqrt 6 / 48)"
    using q0 sqrt_6_bounds by (intro mult_nonneg_nonneg) auto
  then have "0 \<le> u" unfolding e .
  ultimately have "\<lfloor>u\<rfloor> = 0" by (simp add: floor_eq_iff)
  then show ?thesis using False unfolding valid_odd_def Let_def u_def by simp
qed

lemma thin_root_bounds: "2 * pi * (9991 / 1999) < thin_root" "thin_root < 2 * pi * (9997 / 1999)"
proof -
  have "2 * pi * (9991 / 1999) < 2 * pi * (9997 / 1999)" by simp
  from refine_root_bounds[OF this, of "f_even (sqrt 6 / 48) 7 1 (2 * pi)"]
  show "2 * pi * (9991 / 1999) < thin_root" "thin_root < 2 * pi * (9997 / 1999)"
    unfolding thin_root_def by simp_all
qed

lemma thin_sign_change:
  "sign_change (f_even (sqrt 6 / 48) 7 1 (2 * pi) (2 * pi * (9991 / 1999)))
               (f_even (sqrt 6 / 48) 7 1 (2 * pi) (2 * pi * (9997 / 1999)))"
proof -
  have "(1::real) < 9991 / 1999" "(9991 / 1999 :: real) < 5" by simp_all
  from thin_f_even_left[OF this] obtain u where
    u: "f_even (sqrt 6 / 48) 7 1 (2 * pi) (2 * pi * (9991 / 1999)) = Some u" "0 < u" by blast
  have "(5::real) < 9997 / 1999" "(9997 / 1999 :: real) < 7" by simp_all
  from thin_f_even_right[OF this] obtain v where
    v: "f_even (sqrt 6 / 48) 7 1 (2 * pi) (2 * pi * (9997 / 1999)) = Some v" "v < 0" by blast
  have "u * v < 0" using u(2) v(2) by (simp add: mult_pos_neg)
  then show ?thesis unfolding u(1) v(1) by (simp add: sign_change_def)
qed

lemma thin_root_valid: "valid_even (sqrt 6 / 48) 7 (2 * pi) thin_root"
proof -
  from between_scaled[OF thin_root_bounds] obtain b where
    e: "thin_root = 2 * pi * b" and b: "9991 / 1999 < b" "b < 9997 / 1999" by blast
  have b': "0 \<le> b" "b < 7" using b by linarith+
  let ?s = "sqrt (7\<^sup>2 - b\<^sup>2)"
  have "(4::real)\<^sup>2 < b\<^sup>2" using b by (intro power_strict_mono) auto
  then have "7\<^sup>2 - b\<^sup>2 \<le> 6\<^sup>2" by simp
  then have "?s \<le> sqrt (6\<^sup>2)" by (simp only: real_sqrt_le_iff)
  then have s: "?s \<le> 6" by simp
  have "?s * (sqrt 6 / 48) \<le> 6 * (sqrt 6 / 48)" using s sqrt_6_bounds by (intro mult_right_mono) auto
  then have u: "?s * (sqrt 6 / 48) \<le> 5 / 16" using sqrt_6_bounds by linarith
  have "pi * (?s * (sqrt 6 / 48)) \<le> pi * (5 / 16)" by (rule mult_left_mono[OF u]) simp
  moreover have "pi * (5 / 16) \<le> pi / 2 - 1 / 10" using pi_ge_two by simp
  ultimately have "pi * (?s * (sqrt 6 / 48)) \<le> pi / 2 - 1 / 10" by linarith
  moreover have "2 * pi * ?s * (sqrt 6 / 48) / 2 = pi * (?s * (sqrt 6 / 48))" by simp
  ultimately have th: "\<not> 2 * pi * ?s * (sqrt 6 / 48) / 2 > pi / 2 - 1 / 10" by linarith
  have "0 < 2 * pi" by simp
  from valid_even_scaled[OF this b', of "sqrt 6 / 48"] thin_branch[OF b'] th
  show ?thesis unfolding e by simp
qed

lemma thin_root_in_even_roots:
  "thin_root \<in> set (even_roots (sqrt 6 / 48) 7 1 (2 * pi))"
  unfolding even_roots_iff
proof (intro exI[of _ 1332] conjI)
  show "(1332::nat) < 1999" by simp
  show "sign_change
     (f_even (sqrt 6 / 48) 7 1 (2 * pi) (beta_scan 7 1 (2 * pi) ! 1332))
     (f_even (sqrt 6 / 48) 7 1 (2 * pi) (beta_scan 7 1 (2 * pi) ! (1332 + 1)))"
    using thin_sign_change by (simp add: thin_scan_1332 thin_scan_1333)
  show "thin_root =
    refine_root (f_even (sqrt 6 / 48) 7 1 (2 * pi))
     (beta_scan 7 1 (2 * pi) ! 1332) (beta_scan 7 1 (2 * pi) ! (1332 + 1))"
    by (simp add: thin_scan_1332 thin_scan_1333 thin_root_def)
  show "valid_even (sqrt 6 / 48) 7 (2 * pi) thin_root" by (rule thin_root_valid)
qed

lemma thin_odd_roots: "odd_roots (sqrt 6 / 48) 7 1 (2 * pi) = []"
  unfolding odd_roots_def Let_def roots_def
  by (simp only: filter_empty_conv thin_invalid_odd) simp

lemma thin_modes_head:
  "modes_sorted (sqrt 6 / 48) 7 1 (2 * pi) \<noteq> []"
  "fst (modes_sorted (sqrt 6 / 48) 7 1 (2 * pi) ! 0) = Even"
proof -
  define ms where "ms = modes_sorted (sqrt 6 / 48) 7 1 (2 * pi)"
  have s: "set ms = Pair Even ` set (even_roots (sqrt 6 / 48) 7 1 (2 * pi))"
    unfolding ms_def set_modes_sorted thin_odd_roots by simp
  then have "(Even, thin_root) \<in> set ms" using thin_root_in_even_roots by blast
  then have ne: "ms \<noteq> []" by auto
  then have "ms ! 0 \<in> set ms" by simp
  then have "fst (ms ! 0) = Even" unfolding s by auto
  then show "fst (modes_sorted (sqrt 6 / 48) 7 1 (2 * pi) ! 0) = Even" unfolding ms_def .
  show "modes_sorted (sqrt 6 / 48) 7 1 (2 * pi) \<noteq> []" using ne unfolding ms_def .
qed

lemma thin_params:
  "(0::real) < sqrt 6 / 48" "(1::real) < 7" "(0::real) < 1" "(0::real) < 1"
  by simp_all

lemma thin_fundamental:
  "slab_mode_source (Vec xs) (sqrt 6 / 48) 7 1 1 (PyInt 0) 0 =
     Inr ([], field_of_mode (modes_sorted (sqrt 6 / 48) 7 1 (2 * pi / 1) ! 0)
                 (sqrt 6 / 48) 7 1 (2 * pi / 1) 0 xs)"
proof -
  have k: "2 * pi / 1 = 2 * pi" by simp
  have c: "clamp_index (int_value (PyInt 0)) (length (modes_sorted (sqrt 6 / 48) 7 1 (2 * pi))) = ([], 0)"
    using thin_modes_head(1) by (simp add: clamp_index_def)
  have p: "isinstance_int (PyInt 0)" "0 \<le> int_value (PyInt 0)" by simp_all
  show ?thesis
    unfolding slab_mode_source_valid[OF thin_params p] Let_def k c fst_conv snd_conv
    using thin_modes_head(1) by (simp only: if_False)
qed

lemma length_roots_le: "length (roots f valid ivs) \<le> length ivs"
  by (simp add: roots_def)

lemma length_intervals_le: "length (intervals vals scan N) \<le> N - 1"
  by (simp add: intervals_def) (metis length_filter_le length_upt diff_zero)

lemma length_modes_sorted_le: "length (modes_sorted w n_WG n0 k0) \<le> 3998"
proof -
  have "length (even_roots w n_WG n0 k0) \<le> 1999"
    unfolding even_roots_def Let_def
    using length_roots_le[of "f_even w n_WG n0 k0" "valid_even w n_WG k0"
        "intervals (map (f_even w n_WG n0 k0) (linspace (n0 * k0) (n_WG * k0) 2000))
           (linspace (n0 * k0) (n_WG * k0) 2000) 2000"]
      length_intervals_le[of "map (f_even w n_WG n0 k0) (linspace (n0 * k0) (n_WG * k0) 2000)"
        "linspace (n0 * k0) (n_WG * k0) 2000" 2000]
    by simp
  moreover have "length (odd_roots w n_WG n0 k0) \<le> 1999"
    unfolding odd_roots_def Let_def
    using length_roots_le[of "f_odd w n_WG n0 k0" "valid_odd w n_WG k0"
        "intervals (map (f_odd w n_WG n0 k0) (linspace (n0 * k0) (n_WG * k0) 2000))
           (linspace (n0 * k0) (n_WG * k0) 2000) 2000"]
      length_intervals_le[of "map (f_odd w n_WG n0 k0) (linspace (n0 * k0) (n_WG * k0) 2000)"
        "linspace (n0 * k0) (n_WG * k0) 2000" 2000]
    by simp
  ultimately show ?thesis by (simp add: length_modes_sorted)
qed

section \<open>Bisection about a root the tolerance test never meets\<close>




section \<open>Example: the thin slab at a very short wavelength\<close>










section \<open>The mode solver: the claims\<close>




text \<open>
  Claim C7. With valid parameters, when the scan finds at least one mode and the
  requested index \<open>ind_m\<close> is at least the number of modes found, \<open>slab_mode_source\<close> does
  not fail: it emits the one warning and returns the normalised field of the last mode
  of the sorted list, which is the field the index \<open>len - 1\<close> returns without a warning.
\<close>

theorem slab_mode_source_clamps:
  assumes "0 < w" and "n0 < n_WG" and "0 < n0" and "0 < wavelength"
    and "isinstance_int ind_m"
    and "modes_sorted w n_WG n0 (2 * pi / wavelength) \<noteq> []"
    and "int (length (modes_sorted w n_WG n0 (2 * pi / wavelength))) \<le> int_value ind_m"
  shows "slab_mode_source (Vec xs) w n_WG n0 wavelength ind_m x0 =
       Inr ([ModeIndexWarning (int_value ind_m)
               (length (modes_sorted w n_WG n0 (2 * pi / wavelength)))],
            field_of_mode (last (modes_sorted w n_WG n0 (2 * pi / wavelength)))
              w n_WG n0 (2 * pi / wavelength) x0 xs)
     \<and> slab_mode_source (Vec xs) w n_WG n0 wavelength
          (PyInt (int (length (modes_sorted w n_WG n0 (2 * pi / wavelength))) - 1)) x0 =
       Inr ([],
            field_of_mode (last (modes_sorted w n_WG n0 (2 * pi / wavelength)))
              w n_WG n0 (2 * pi / wavelength) x0 xs)"
proof -
  let ?ms = "modes_sorted w n_WG n0 (2 * pi / wavelength)"
  have n: "0 < length ?ms" using assms(6) by simp
  have i0: "0 \<le> int_value ind_m" using assms(7) by linarith
  have l: "?ms ! (length ?ms - 1) = last ?ms" using assms(6) by (simp add: last_conv_nth)
  have c1: "clamp_index (int_value ind_m) (length ?ms)
      = ([ModeIndexWarning (int_value ind_m) (length ?ms)], length ?ms - 1)"
    using assms(7) by (simp add: clamp_index_def)
  have a: "slab_mode_source (Vec xs) w n_WG n0 wavelength ind_m x0 =
       Inr ([ModeIndexWarning (int_value ind_m) (length ?ms)],
            field_of_mode (last ?ms) w n_WG n0 (2 * pi / wavelength) x0 xs)"
    unfolding slab_mode_source_valid[OF assms(1-5) i0] Let_def c1 fst_conv snd_conv l
    using assms(6) by (simp only: if_False)
  have p: "isinstance_int (PyInt (int (length ?ms) - 1))" "0 \<le> int_value (PyInt (int (length ?ms) - 1))"
    using n by simp_all
  have nn: "nat (int (length ?ms) - 1) = length ?ms - 1" by (simp add: nat_diff_distrib')
  have c2: "clamp_index (int_value (PyInt (int (length ?ms) - 1))) (length ?ms) = ([], length ?ms - 1)"
    using nn by (simp add: clamp_index_def)
  have b: "slab_mode_source (Vec xs) w n_WG n0 wavelength (PyInt (int (length ?ms) - 1)) x0 =
       Inr ([], field_of_mode (last ?ms) w n_WG n0 (2 * pi / wavelength) x0 xs)"
    unfolding slab_mode_source_valid[OF assms(1-4) p] Let_def c2 fst_conv snd_conv l
    using assms(6) by (simp only: if_False)
  show ?thesis using a b by (rule conjI)
qed

theorem slab_mode_source_clamps_witness:
  "modes_sorted (127 / 128) (2501 / 100) (251 / 50) (2 * pi / 1) \<noteq> []
   \<and> int (length (modes_sorted (127 / 128) (2501 / 100) (251 / 50) (2 * pi / 1)))
        \<le> int_value (PyInt 4000)
   \<and> slab_mode_source (Vec [- 1, 1]) (127 / 128) (2501 / 100) (251 / 50) 1 (PyInt 4000) 0 =
       Inr ([ModeIndexWarning (int_value (PyInt 4000))
               (length (modes_sorted (127 / 128) (2501 / 100) (251 / 50) (2 * pi / 1)))],
            field_of_mode (last (modes_sorted (127 / 128) (2501 / 100) (251 / 50) (2 * pi / 1)))
              (127 / 128) (2501 / 100) (251 / 50) (2 * pi / 1) 0 [- 1, 1])"
proof -
  let ?ms = "modes_sorted (127 / 128) (2501 / 100) (251 / 50) (2 * pi / 1)"
  have h6: "?ms \<noteq> []" using thick_modes_head(1) by simp
  have h7: "int (length ?ms) \<le> int_value (PyInt 4000)"
    using length_modes_sorted_le[of "127 / 128" "2501 / 100" "251 / 50" "2 * pi / 1"] by simp
  have h5: "isinstance_int (PyInt 4000)" by simp
  from slab_mode_source_clamps[OF thick_params h5 h6 h7, of "[- 1, 1]" 0] h6 h7
  show ?thesis by blast
qed

text \<open>
  Claim C5: for every returned mode field the trapezoidal integral of \<open>|E|\<^sup>2\<close> over \<open>x\<close>
  is 1. The source divides the field by \<open>norm = sqrt (trapezoid (|E|\<^sup>2, x))\<close> and never
  tests \<open>norm\<close>. On the one-point grid \<open>x = [0]\<close> the thick slab has a mode and
  \<open>slab_mode_source\<close> returns a field; the integral of the field before normalisation
  over the single point is 0, so \<open>norm = 0\<close> and the source divides by zero (numpy fills
  the field with \<open>nan\<close>, the division of this theory gives 0); the integral of the
  returned field over the single point is 0 and not 1.
\<close>

theorem slab_mode_source_single_point_grid:
  "slab_mode_source (Vec [0]) (127 / 128) (2501 / 100) (251 / 50) 1 (PyInt 0) 0 =
     Inr ([], field_of_mode (Odd, thick_root) (127 / 128) (2501 / 100) (251 / 50) (2 * pi) 0 [0])
   \<and> sqrt (power_integral
        (raw_field_of_mode (Odd, thick_root) (127 / 128) (2501 / 100) (251 / 50) (2 * pi) 0 [0]) [0]) = 0
   \<and> power_integral
        (field_of_mode (Odd, thick_root) (127 / 128) (2501 / 100) (251 / 50) (2 * pi) 0 [0]) [0] = 0"
  using thick_fundamental[of "[0]"] power_integral_one by simp

theorem slab_mode_source_single_point_grid_witness:
  "isinstance_int (PyInt 0) \<and> 0 \<le> int_value (PyInt 0)
   \<and> (\<exists>E. slab_mode_source (Vec [0]) (127 / 128) (2501 / 100) (251 / 50) 1 (PyInt 0) 0 = Inr ([], E)
          \<and> power_integral E [0] = 0 \<and> power_integral E [0] \<noteq> 1)"
proof -
  have "\<exists>E. slab_mode_source (Vec [0]) (127 / 128) (2501 / 100) (251 / 50) 1 (PyInt 0) 0 = Inr ([], E)
          \<and> power_integral E [0] = 0 \<and> power_integral E [0] \<noteq> 1"
    using slab_mode_source_single_point_grid by (intro exI conjI) (erule conjE, assumption, simp_all)
  then show ?thesis by simp
qed

text \<open>
  Away from such a grid the normalisation does what the docstring of \<open>slab_mode_source\<close>
  announces: whenever the trapezoidal integral of \<open>|E|\<^sup>2\<close> of the field before
  normalisation is positive, the trapezoidal integral of \<open>|E|\<^sup>2\<close> of the returned field
  over \<open>x\<close> is 1. The thick slab on the grid \<open>[-1, 1]\<close> is an instance.
\<close>

theorem slab_mode_source_normalized:
  assumes "slab_mode_source (Vec xs) w n_WG n0 wavelength ind_m x0 = Inr (ws, E)"
    and "0 < power_integral
           (raw_field_of_mode
              (modes_sorted w n_WG n0 (2 * pi / wavelength)
                 ! snd (clamp_index (int_value ind_m)
                          (length (modes_sorted w n_WG n0 (2 * pi / wavelength)))))
              w n_WG n0 (2 * pi / wavelength) x0 xs) xs"
  shows "power_integral E xs = 1"
proof -
  let ?ms = "modes_sorted w n_WG n0 (2 * pi / wavelength)"
  from slab_mode_source_Inr[OF assms(1)] obtain ys where
    ys: "Vec xs = Vec ys"
    and E: "E = field_of_mode (?ms ! snd (clamp_index (int_value ind_m) (length ?ms)))
              w n_WG n0 (2 * pi / wavelength) x0 ys"
    by (elim exE conjE) (rule that; assumption)
  have "ys = xs" using ys by simp
  then show ?thesis
    using power_integral_normalize[OF assms(2)] unfolding E field_of_mode_def by simp
qed

theorem slab_mode_source_normalized_witness:
  "slab_mode_source (Vec [- 1, 1]) (127 / 128) (2501 / 100) (251 / 50) 1 (PyInt 0) 0 =
     Inr ([], [- complex_of_real (1 / sqrt 2), complex_of_real (1 / sqrt 2)])
   \<and> power_integral [- complex_of_real (1 / sqrt 2), complex_of_real (1 / sqrt 2)] [- 1, 1] = 1"
proof -
  let ?ms = "modes_sorted (127 / 128) (2501 / 100) (251 / 50) (2 * pi / 1)"
  have k: "2 * pi / 1 = 2 * pi" by simp
  have c: "snd (clamp_index (int_value (PyInt 0)) (length ?ms)) = 0"
    using thick_modes_head(1) unfolding k by (simp add: clamp_index_def)
  have h1: "slab_mode_source (Vec [- 1, 1]) (127 / 128) (2501 / 100) (251 / 50) 1 (PyInt 0) 0 =
     Inr ([], [- complex_of_real (1 / sqrt 2), complex_of_real (1 / sqrt 2)])"
    by (rule thick_fundamental_pair)
  have h2: "0 < power_integral
           (raw_field_of_mode (?ms ! snd (clamp_index (int_value (PyInt 0)) (length ?ms)))
              (127 / 128) (2501 / 100) (251 / 50) (2 * pi / 1) 0 [- 1, 1]) [- 1, 1]"
    unfolding c unfolding k thick_modes_head(2) by (rule thick_field(2))
  from slab_mode_source_normalized[OF h1 h2] h1 show ?thesis by blast
qed

text \<open>
  Claim C9, as stated: with \<open>x0 = 0\<close> and a grid symmetric about 0 the field for
  \<open>ind_m = 0\<close> is even whenever a mode is found. For the thick slab on the grid
  \<open>[-1, 1]\<close> the first mode of the sorted list is odd (the even fundamental lies above
  the last usable sample), and the returned field is \<open>[-1/sqrt 2, 1/sqrt 2]\<close>: the two
  mirrored entries differ by \<open>sqrt 2\<close>.
\<close>

theorem fundamental_mode_even_counterexample:
  "slab_mode_source (Vec [- 1, 1]) (127 / 128) (2501 / 100) (251 / 50) 1 (PyInt 0) 0 =
     Inr ([], [- complex_of_real (1 / sqrt 2), complex_of_real (1 / sqrt 2)])
   \<and> [- 1, 1 :: real] ! 1 = - [- 1, 1] ! 0
   \<and> cmod (complex_of_real (1 / sqrt 2) - (- complex_of_real (1 / sqrt 2))) = sqrt 2"
proof -
  have "complex_of_real (1 / sqrt 2) - (- complex_of_real (1 / sqrt 2)) = complex_of_real (2 / sqrt 2)"
    by simp
  moreover have "2 / sqrt 2 = sqrt 2" by (simp add: real_div_sqrt)
  ultimately have "cmod (complex_of_real (1 / sqrt 2) - (- complex_of_real (1 / sqrt 2))) = sqrt 2"
    by (simp only: norm_of_real) simp
  then show ?thesis using thick_fundamental_pair by simp
qed

text \<open>
  Claim C9, amended. With \<open>x0 = 0\<close> and a grid symmetric about 0 (entry \<open>n - 1 - i\<close> is
  the negative of entry \<open>i\<close>), whenever the first mode of the sorted list comes from the
  even characteristic function, the field returned for \<open>ind_m = 0\<close> is even: its entries
  at mirrored grid points are equal.
\<close>

theorem fundamental_mode_even:
  assumes "slab_mode_source (Vec xs) w n_WG n0 wavelength (PyInt 0) 0 = Inr (ws, E)"
    and "fst (modes_sorted w n_WG n0 (2 * pi / wavelength) ! 0) = Even"
    and "\<forall>i < length xs. xs ! (length xs - 1 - i) = - xs ! i"
  shows "length E = length xs \<and> (\<forall>i < length xs. E ! (length xs - 1 - i) = E ! i)"
proof -
  let ?ms = "modes_sorted w n_WG n0 (2 * pi / wavelength)"
  from slab_mode_source_Inr[OF assms(1)]
  have ne: "?ms \<noteq> []"
    and E: "E = field_of_mode (?ms ! snd (clamp_index 0 (length ?ms))) w n_WG n0 (2 * pi / wavelength) 0 xs"
    by auto
  have "snd (clamp_index 0 (length ?ms)) = 0" using ne by (simp add: clamp_index_def)
  then have E': "E = field_of_mode (?ms ! 0) w n_WG n0 (2 * pi / wavelength) 0 xs" using E by simp
  have "\<forall>i < length xs. E ! (length xs - 1 - i) = E ! i"
  proof (intro allI impI)
    fix i assume i: "i < length xs"
    then have j: "length xs - 1 - i < length xs" by simp
    have m: "xs ! (length xs - 1 - i) = - xs ! i" using assms(3) i by simp
    show "E ! (length xs - 1 - i) = E ! i"
      unfolding E' field_of_mode_def raw_field_of_mode_def Let_def assms(2)
      using i j m by (simp add: normalize_def mode_field_def Let_def)
  qed
  then show ?thesis unfolding E' by simp
qed

theorem fundamental_mode_even_witness:
  "slab_mode_source (Vec [- 1, 1]) (sqrt 6 / 48) 7 1 1 (PyInt 0) 0 =
     Inr ([], field_of_mode (modes_sorted (sqrt 6 / 48) 7 1 (2 * pi / 1) ! 0)
                 (sqrt 6 / 48) 7 1 (2 * pi / 1) 0 [- 1, 1])
   \<and> fst (modes_sorted (sqrt 6 / 48) 7 1 (2 * pi / 1) ! 0) = Even
   \<and> field_of_mode (modes_sorted (sqrt 6 / 48) 7 1 (2 * pi / 1) ! 0)
                 (sqrt 6 / 48) 7 1 (2 * pi / 1) 0 [- 1, 1] ! 1
     = field_of_mode (modes_sorted (sqrt 6 / 48) 7 1 (2 * pi / 1) ! 0)
                 (sqrt 6 / 48) 7 1 (2 * pi / 1) 0 [- 1, 1] ! 0"
proof -
  let ?F = "field_of_mode (modes_sorted (sqrt 6 / 48) 7 1 (2 * pi / 1) ! 0)
                 (sqrt 6 / 48) 7 1 (2 * pi / 1) 0 [- 1, 1]"
  have h1: "slab_mode_source (Vec [- 1, 1]) (sqrt 6 / 48) 7 1 1 (PyInt 0) 0 = Inr ([], ?F)"
    by (rule thin_fundamental)
  have h2: "fst (modes_sorted (sqrt 6 / 48) 7 1 (2 * pi / 1) ! 0) = Even"
    using thin_modes_head(2) by simp
  have h3: "\<forall>i < length [- 1, 1 :: real]. [- 1, 1 :: real] ! (length [- 1, 1 :: real] - 1 - i) = - [- 1, 1] ! i"
    by (simp add: less_Suc_eq)
  have "(0::nat) < length [- 1, 1 :: real]" by simp
  from fundamental_mode_even[OF h1 h2 h3, THEN conjunct2, rule_format, OF this]
  have "?F ! 1 = ?F ! 0" by simp
  then show ?thesis using h1 h2 by blast
qed

end
